theory Spec2Isabelle
  imports Main "HOL-Library.Word"
begin

unbundle bit_operations_syntax

section \<open>The execution state controller (pcsx2/ps2/CoreEmuThread.cpp)\<close>

subsection \<open>Data\<close>

text \<open>
  The four execution modes of \<^verbatim>\<open>CoreEmuThread\<close>. The constructor starts the
  thread in \<^verbatim>\<open>ExecMode_Idle\<close>.
\<close>

datatype ExecMode =
    ExecMode_Idle
  | ExecMode_Running
  | ExecMode_Suspending
  | ExecMode_Suspended

text \<open>
  \<^verbatim>\<open>Pcsx2Config\<close> is declared outside the two source files. \<^verbatim>\<open>ApplySettings\<close>
  only compares the four option groups for equality and copies the whole structure, so
  each group is an opaque value (a natural number standing for the group's content).
\<close>

record Pcsx2Config =
  Cpu :: nat
  Gamefixes :: nat
  Speedhacks :: nat
  Profiler :: nat
  SkipBiosSplash :: bool

text \<open>
  The fields of \<^verbatim>\<open>CoreEmuThread\<close> together with the two globals its methods touch:
  the active configuration \<^verbatim>\<open>EmuConfig\<close> and the translated-code cache, of which
  only the number of \<^verbatim>\<open>SysClearExecutionCache()\<close> calls is recorded. The two
  event signals are kept as the number of signals posted and not yet taken.
\<close>

record CoreEmuThread =
  m_ExecMode :: ExecMode
  m_ResumeEvent :: nat
  m_SuspendEvent :: nat
  m_resetRecompilers :: bool
  m_resetProfilers :: bool
  EmuConfig :: Pcsx2Config
  execCacheClears :: nat

text \<open>The constructor (lines 163-173): idle, no pending signal, no pending reset.\<close>

definition CoreEmuThread_new :: "Pcsx2Config \<Rightarrow> CoreEmuThread" where
  "CoreEmuThread_new cfg =
     \<lparr> m_ExecMode = ExecMode_Idle, m_ResumeEvent = 0, m_SuspendEvent = 0,
       m_resetRecompilers = False, m_resetProfilers = False,
       EmuConfig = cfg, execCacheClears = 0 \<rparr>"

text \<open>
  Modelled from the spec: the class of the two event signals \<^verbatim>\<open>m_ResumeEvent\<close> and
  \<^verbatim>\<open>m_SuspendEvent\<close> is not among the source files; they "provide blocking
  wait/notify". \<^verbatim>\<open>Post()\<close> adds one signal; \<^verbatim>\<open>WaitGui()\<close> blocks while there is
  none and then takes one.
\<close>

definition Post_ResumeEvent :: "CoreEmuThread \<Rightarrow> CoreEmuThread" where
  "Post_ResumeEvent s = s\<lparr>m_ResumeEvent := m_ResumeEvent s + 1\<rparr>"

definition Post_SuspendEvent :: "CoreEmuThread \<Rightarrow> CoreEmuThread" where
  "Post_SuspendEvent s = s\<lparr>m_SuspendEvent := m_SuspendEvent s + 1\<rparr>"

text \<open>A wait returns \<open>None\<close> while the caller stays blocked.\<close>

definition Wait_ResumeEvent :: "CoreEmuThread \<Rightarrow> CoreEmuThread option" where
  "Wait_ResumeEvent s =
     (if m_ResumeEvent s = 0 then None else Some (s\<lparr>m_ResumeEvent := m_ResumeEvent s - 1\<rparr>))"

definition Wait_SuspendEvent :: "CoreEmuThread \<Rightarrow> CoreEmuThread option" where
  "Wait_SuspendEvent s =
     (if m_SuspendEvent s = 0 then None else Some (s\<lparr>m_SuspendEvent := m_SuspendEvent s - 1\<rparr>))"

definition SysClearExecutionCache :: "CoreEmuThread \<Rightarrow> CoreEmuThread" where
  "SysClearExecutionCache s = s\<lparr>execCacheClears := execCacheClears s + 1\<rparr>"

subsection \<open>Control points of a calling thread\<close>

text \<open>
  \<^verbatim>\<open>Resume\<close> and \<^verbatim>\<open>Suspend\<close> hold \<^verbatim>\<open>m_lock_ExecMode\<close> for their first block only,
  and both can park the caller on \<^verbatim>\<open>m_SuspendEvent\<close> after releasing it. A caller is
  therefore at one of these points: outside any call, parked at line 258 or at line 208,
  in front of one of the unlocked statements of lines 218-229, or left by an exception of
  \<^verbatim>\<open>DevAssert\<close>.
\<close>

datatype caller_pc =
    Caller_Ready
  | Suspend_WaitSuspendEvent
  | Resume_WaitSuspendEvent
  | Resume_DevAssert
  | Resume_Resets
  | Resume_SetRunning
  | Resume_PostResumeEvent
  | Caller_AssertionFailure

text \<open>
  Modelled from the spec: \<^verbatim>\<open>DevAssert\<close> is defined outside the source files. Invalid
  states "fail fast via an assertion": a false condition throws and ends the call.
\<close>

definition DevAssert_throws :: "bool \<Rightarrow> bool" where
  "DevAssert_throws condition = (\<not> condition)"

subsection \<open>Suspend (lines 242-259)\<close>

text \<open>
  \<open>Suspend_enter\<close> is lines 244-256: the guard and the locked block. It returns the
  control point the caller is left at. The parameter \<open>isBlocking\<close> is the method's
  argument; the body never reads it, and line 258 is reached on every path that leaves
  the locked block at its end.
\<close>

definition Suspend_enter ::
  "bool \<Rightarrow> bool \<Rightarrow> bool \<Rightarrow> CoreEmuThread \<Rightarrow> caller_pc \<times> CoreEmuThread" where
  "Suspend_enter isBlocking isSelf isRunning s =
     (if isSelf \<or> \<not> isRunning then (Caller_Ready, s)
      else if m_ExecMode s = ExecMode_Suspended \<or> m_ExecMode s = ExecMode_Idle
        then (Caller_Ready, s)
      else
        let s' = (if m_ExecMode s = ExecMode_Running
                  then s\<lparr>m_ExecMode := ExecMode_Suspending\<rparr> else s)
        in if DevAssert_throws (m_ExecMode s' = ExecMode_Suspending)
             then (Caller_AssertionFailure, s')
             else (Suspend_WaitSuspendEvent, s'))"

subsection \<open>Resume (lines 190-230)\<close>

text \<open>\<open>Resume_enter\<close> is lines 192-216: the guard and the locked block.\<close>

definition Resume_enter :: "bool \<Rightarrow> bool \<Rightarrow> CoreEmuThread \<Rightarrow> caller_pc \<times> CoreEmuThread" where
  "Resume_enter isSelf isRunning s =
     (if isSelf \<or> \<not> isRunning then (Caller_Ready, s)
      else if m_ExecMode s = ExecMode_Running then (Caller_Ready, s)
      else if m_ExecMode s = ExecMode_Suspending then
        (if m_resetRecompilers s \<or> m_resetProfilers s
           then (Resume_WaitSuspendEvent, s)
           else (Caller_Ready, s\<lparr>m_ExecMode := ExecMode_Running\<rparr>))
      else (Resume_DevAssert, s))"

text \<open>Lines 221-226: a pending reset clears the cache once and both flags.\<close>

definition Resume_resets :: "CoreEmuThread \<Rightarrow> CoreEmuThread" where
  "Resume_resets s =
     (if m_resetRecompilers s \<or> m_resetProfilers s
      then (SysClearExecutionCache s)\<lparr>m_resetRecompilers := False, m_resetProfilers := False\<rparr>
      else s)"

text \<open>
  One statement of a caller that is inside a call; \<open>None\<close> when the caller cannot move
  (parked on an empty semaphore, or not inside a call).
\<close>

fun caller_step :: "caller_pc \<Rightarrow> CoreEmuThread \<Rightarrow> (caller_pc \<times> CoreEmuThread) option" where
  "caller_step Suspend_WaitSuspendEvent s =
     (case Wait_SuspendEvent s of None \<Rightarrow> None | Some s' \<Rightarrow> Some (Caller_Ready, s'))"
| "caller_step Resume_WaitSuspendEvent s =
     (case Wait_SuspendEvent s of None \<Rightarrow> None | Some s' \<Rightarrow> Some (Resume_DevAssert, s'))"
| "caller_step Resume_DevAssert s =
     (if DevAssert_throws (m_ExecMode s = ExecMode_Suspended \<or> m_ExecMode s = ExecMode_Idle)
      then Some (Caller_AssertionFailure, s) else Some (Resume_Resets, s))"
| "caller_step Resume_Resets s = Some (Resume_SetRunning, Resume_resets s)"
| "caller_step Resume_SetRunning s =
     Some (Resume_PostResumeEvent, s\<lparr>m_ExecMode := ExecMode_Running\<rparr>)"
| "caller_step Resume_PostResumeEvent s = Some (Caller_Ready, Post_ResumeEvent s)"
| "caller_step Caller_Ready s = None"
| "caller_step Caller_AssertionFailure s = None"

text \<open>
  A call running alone: the caller's statements one after another with no other thread
  in between, up to the return, the exception or the point where it is parked. No call
  has more than five statements after its locked block.
\<close>

fun caller_run :: "nat \<Rightarrow> caller_pc \<times> CoreEmuThread \<Rightarrow> caller_pc \<times> CoreEmuThread" where
  "caller_run 0 ps = ps"
| "caller_run (Suc n) (pc, s) =
     (case caller_step pc s of None \<Rightarrow> (pc, s) | Some ps' \<Rightarrow> caller_run n ps')"

definition Resume :: "bool \<Rightarrow> bool \<Rightarrow> CoreEmuThread \<Rightarrow> caller_pc \<times> CoreEmuThread" where
  "Resume isSelf isRunning s = caller_run 5 (Resume_enter isSelf isRunning s)"

definition Suspend :: "bool \<Rightarrow> bool \<Rightarrow> bool \<Rightarrow> CoreEmuThread \<Rightarrow> caller_pc \<times> CoreEmuThread" where
  "Suspend isBlocking isSelf isRunning s =
     caller_run 5 (Suspend_enter isBlocking isSelf isRunning s)"

subsection \<open>ApplySettings (lines 264-269)\<close>

definition ApplySettings :: "Pcsx2Config \<Rightarrow> CoreEmuThread \<Rightarrow> CoreEmuThread" where
  "ApplySettings src s =
     s\<lparr> m_resetRecompilers :=
          (Cpu src \<noteq> Cpu (EmuConfig s)) \<or> (Gamefixes src \<noteq> Gamefixes (EmuConfig s))
          \<or> (Speedhacks src \<noteq> Speedhacks (EmuConfig s)),
        m_resetProfilers := (Profiler src \<noteq> Profiler (EmuConfig s)),
        EmuConfig := src \<rparr>"

subsection \<open>The execution thread: ExecuteTask (lines 118-132) and StateCheck (lines 134-161)\<close>

text \<open>
  The control points of the execution thread: the test and the wait of the start-up loop
  (lines 122-125), \<^verbatim>\<open>CpuInitializeMess\<close> (line 127), the \<^verbatim>\<open>switch\<close> of
  \<^verbatim>\<open>StateCheck\<close> at a safe point (line 136), its locked block for
  \<^verbatim>\<open>ExecMode_Suspending\<close> (lines 150-154), the test and the wait of the loop of
  \<^verbatim>\<open>ExecMode_Suspended\<close> (lines 157-158), the failed assertion of line 141, and the
  end of the thread.
\<close>

datatype exec_pc =
    Exec_StartTest
  | Exec_StartWait
  | Exec_CpuInitializeMess
  | Exec_StateCheck
  | Exec_Suspending
  | Exec_SuspendedTest
  | Exec_SuspendedWait
  | Exec_AssertionFailure
  | Exec_Exited

text \<open>
  \<^verbatim>\<open>CpuInitializeMess\<close> (lines 36-92) as far as the controller's state goes: line 40
  clears the execution cache, and when \<^verbatim>\<open>StateRecovery::HasState()\<close> holds,
  \<^verbatim>\<open>StateRecovery::Recover()\<close> clears it again. The boot path of the other branch
  touches none of the fields above; when it throws, the thread ends.
\<close>

definition CpuInitializeMess :: "bool \<Rightarrow> CoreEmuThread \<Rightarrow> CoreEmuThread" where
  "CpuInitializeMess hasState s =
     (let s1 = SysClearExecutionCache s
      in if hasState then SysClearExecutionCache s1 else s1)"

text \<open>
  One statement of the execution thread. After \<^verbatim>\<open>StateCheck\<close> returns, the thread
  runs guest code up to its next safe point, which is the next \<^verbatim>\<open>StateCheck\<close>. The
  \<^verbatim>\<open>switch\<close> reads \<^verbatim>\<open>m_ExecMode\<close> once; the case \<^verbatim>\<open>ExecMode_Suspending\<close> falls
  through into the loop of \<^verbatim>\<open>ExecMode_Suspended\<close>.
\<close>

fun exec_step :: "exec_pc \<Rightarrow> CoreEmuThread \<Rightarrow> (exec_pc \<times> CoreEmuThread) option" where
  "exec_step Exec_StartTest s =
     (if m_ExecMode s \<noteq> ExecMode_Running then Some (Exec_StartWait, s)
      else Some (Exec_CpuInitializeMess, s))"
| "exec_step Exec_StartWait s =
     (case Wait_ResumeEvent s of None \<Rightarrow> None | Some s' \<Rightarrow> Some (Exec_StartTest, s'))"
| "exec_step Exec_CpuInitializeMess s = None"
| "exec_step Exec_StateCheck s =
     (case m_ExecMode s of
        ExecMode_Idle \<Rightarrow>
          if DevAssert_throws False then Some (Exec_AssertionFailure, s)
          else Some (Exec_StateCheck, s)
      | ExecMode_Running \<Rightarrow> Some (Exec_StateCheck, s)
      | ExecMode_Suspending \<Rightarrow> Some (Exec_Suspending, s)
      | ExecMode_Suspended \<Rightarrow> Some (Exec_SuspendedTest, s))"
| "exec_step Exec_Suspending s =
     Some (Exec_SuspendedTest, Post_SuspendEvent (s\<lparr>m_ExecMode := ExecMode_Suspended\<rparr>))"
| "exec_step Exec_SuspendedTest s =
     (if m_ExecMode s = ExecMode_Suspended then Some (Exec_SuspendedWait, s)
      else Some (Exec_StateCheck, s))"
| "exec_step Exec_SuspendedWait s =
     (case Wait_ResumeEvent s of None \<Rightarrow> None | Some s' \<Rightarrow> Some (Exec_SuspendedTest, s'))"
| "exec_step Exec_AssertionFailure s = None"
| "exec_step Exec_Exited s = None"

subsection \<open>The threads together\<close>

text \<open>
  The whole system: the shared fields, the control point of the execution thread and the
  control point of every other thread (threads are numbered). \<^verbatim>\<open>IsRunning()\<close> says
  that the execution thread has not ended. \<^verbatim>\<open>IsSelf()\<close> is false in every call made
  here, since the callers are the other threads.
\<close>

record sys =
  core :: CoreEmuThread
  exec :: exec_pc
  callers :: "nat \<Rightarrow> caller_pc"

definition IsRunning :: "sys \<Rightarrow> bool" where
  "IsRunning S = (exec S \<noteq> Exec_AssertionFailure \<and> exec S \<noteq> Exec_Exited)"

definition sys_new :: "Pcsx2Config \<Rightarrow> sys" where
  "sys_new cfg =
     \<lparr> core = CoreEmuThread_new cfg, exec = Exec_StartTest, callers = (\<lambda>t. Caller_Ready) \<rparr>"

datatype call = Call_Suspend bool | Call_Resume | Call_ApplySettings Pcsx2Config

text \<open>
  What can happen next: thread \<open>t\<close> starts a call (the guard and the locked block run
  as one step, as the lock makes them; \<^verbatim>\<open>ApplySettings\<close>, which takes no lock and
  touches only the flags and the configuration, is one step too); thread \<open>t\<close> runs its
  next statement inside a call; the execution thread runs its next statement, or
  \<^verbatim>\<open>CpuInitializeMess\<close> with the given answer of \<^verbatim>\<open>HasState()\<close>; the execution
  thread ends (cancellation, or an exception of the boot path or of guest code).
\<close>

datatype event =
    Ev_Call nat call
  | Ev_Caller nat
  | Ev_Exec
  | Ev_ExecInit bool
  | Ev_ExecExit

definition can_call :: "caller_pc \<Rightarrow> bool" where
  "can_call pc = (pc = Caller_Ready \<or> pc = Caller_AssertionFailure)"

definition set_caller :: "nat \<Rightarrow> caller_pc \<times> CoreEmuThread \<Rightarrow> sys \<Rightarrow> sys" where
  "set_caller t ps S = S\<lparr>core := snd ps, callers := (callers S)(t := fst ps)\<rparr>"

definition set_exec :: "exec_pc \<times> CoreEmuThread \<Rightarrow> sys \<Rightarrow> sys" where
  "set_exec ps S = S\<lparr>core := snd ps, exec := fst ps\<rparr>"

text \<open>
  An event that cannot happen in a state (a call by a thread that is inside a call, a
  statement of a parked thread) leaves the state as it is.
\<close>

fun step :: "event \<Rightarrow> sys \<Rightarrow> sys" where
  "step (Ev_Call t (Call_Suspend isBlocking)) S =
     (if can_call (callers S t)
      then set_caller t (Suspend_enter isBlocking False (IsRunning S) (core S)) S else S)"
| "step (Ev_Call t Call_Resume) S =
     (if can_call (callers S t)
      then set_caller t (Resume_enter False (IsRunning S) (core S)) S else S)"
| "step (Ev_Call t (Call_ApplySettings src)) S =
     (if can_call (callers S t) then S\<lparr>core := ApplySettings src (core S)\<rparr> else S)"
| "step (Ev_Caller t) S =
     (case caller_step (callers S t) (core S) of None \<Rightarrow> S | Some ps \<Rightarrow> set_caller t ps S)"
| "step Ev_Exec S =
     (case exec_step (exec S) (core S) of None \<Rightarrow> S | Some ps \<Rightarrow> set_exec ps S)"
| "step (Ev_ExecInit hasState) S =
     (if exec S = Exec_CpuInitializeMess
      then set_exec (Exec_StateCheck, CpuInitializeMess hasState (core S)) S else S)"
| "step Ev_ExecExit S = (if IsRunning S then S\<lparr>exec := Exec_Exited\<rparr> else S)"

text \<open>The states a sequence of events goes through, the starting state first.\<close>

fun trace :: "sys \<Rightarrow> event list \<Rightarrow> sys list" where
  "trace S [] = [S]"
| "trace S (e # es) = S # trace (step e S) es"

text \<open>
  The property of the mode along a run: from \<^verbatim>\<open>ExecMode_Suspending\<close> the next state
  is still \<^verbatim>\<open>ExecMode_Suspending\<close>, or it is \<^verbatim>\<open>ExecMode_Suspended\<close> with one more
  signal on \<^verbatim>\<open>m_SuspendEvent\<close>. A mode changes by one statement at a time, so this says
  that \<^verbatim>\<open>ExecMode_Suspended\<close> comes between \<^verbatim>\<open>ExecMode_Suspending\<close> and the next
  \<^verbatim>\<open>ExecMode_Running\<close>, if there is one. It does not say that
  \<^verbatim>\<open>ExecMode_Suspended\<close> is ever reached.
\<close>

definition suspending_step_ok :: "sys \<Rightarrow> sys \<Rightarrow> bool" where
  "suspending_step_ok S S' =
     (m_ExecMode (core S) \<noteq> ExecMode_Suspending
      \<or> m_ExecMode (core S') = ExecMode_Suspending
      \<or> (m_ExecMode (core S') = ExecMode_Suspended
         \<and> m_SuspendEvent (core S') = m_SuspendEvent (core S) + 1))"

fun suspending_then_suspended :: "sys list \<Rightarrow> bool" where
  "suspending_then_suspended (S # S' # rest) =
     (suspending_step_ok S S' \<and> suspending_then_suspended (S' # rest))"
| "suspending_then_suspended [S] = True"
| "suspending_then_suspended [] = True"

text \<open>The safe-point check has seen \<^verbatim>\<open>ExecMode_Idle\<close> (line 141).\<close>

definition observed_idle :: "sys \<Rightarrow> bool" where
  "observed_idle S = (exec S = Exec_AssertionFailure)"

text \<open>Every call and every caller statement of the event belongs to thread \<open>t\<close>.\<close>

fun by_thread :: "nat \<Rightarrow> event \<Rightarrow> bool" where
  "by_thread t (Ev_Call t' c) = (t' = t)"
| "by_thread t (Ev_Caller t') = (t' = t)"
| "by_thread t Ev_Exec = True"
| "by_thread t (Ev_ExecInit h) = True"
| "by_thread t Ev_ExecExit = True"

text \<open>
  The safe-point check is about to read \<^verbatim>\<open>ExecMode_Idle\<close>: the execution thread
  stands in front of the \<^verbatim>\<open>switch\<close> while the mode is idle.
\<close>

definition idle_at_safe_point :: "sys \<Rightarrow> bool" where
  "idle_at_safe_point S = (exec S = Exec_StateCheck \<and> m_ExecMode (core S) = ExecMode_Idle)"

text \<open>The modes of the states of a run.\<close>

definition modes :: "sys list \<Rightarrow> ExecMode list" where
  "modes tr = map (\<lambda>S. m_ExecMode (core S)) tr"

subsection \<open>Invariants of the runs\<close>

text \<open>
  While the mode is idle the execution thread is still in its start-up loop (or has
  ended), and the assertion of line 141 has not fired.
\<close>

definition never_idle_inv :: "sys \<Rightarrow> bool" where
  "never_idle_inv S =
     (exec S \<noteq> Exec_AssertionFailure \<and>
      (m_ExecMode (core S) = ExecMode_Idle \<longrightarrow>
         exec S = Exec_StartTest \<or> exec S = Exec_StartWait \<or> exec S = Exec_Exited))"

text \<open>
  When thread \<open>t\<close> is the only caller: the mode is \<^verbatim>\<open>ExecMode_Suspending\<close> only
  while \<open>t\<close> is parked in \<^verbatim>\<open>Suspend\<close>; \<^verbatim>\<open>m_SuspendEvent\<close> holds a signal only
  between the execution thread's transition to \<^verbatim>\<open>ExecMode_Suspended\<close> and the wake-up
  of \<open>t\<close>; and the execution thread stands in front of its locked block only while the
  mode is \<^verbatim>\<open>ExecMode_Suspending\<close>.
\<close>

definition single_inv :: "nat \<Rightarrow> sys \<Rightarrow> bool" where
  "single_inv t S =
     ((\<forall>t'. t' \<noteq> t \<longrightarrow> callers S t' = Caller_Ready) \<and>
      (m_ExecMode (core S) = ExecMode_Suspending \<longrightarrow> callers S t = Suspend_WaitSuspendEvent) \<and>
      (callers S t = Suspend_WaitSuspendEvent \<longrightarrow>
         (m_ExecMode (core S) = ExecMode_Suspending \<and> m_SuspendEvent (core S) = 0)
         \<or> (m_ExecMode (core S) = ExecMode_Suspended \<and> m_SuspendEvent (core S) = 1)) \<and>
      (callers S t \<noteq> Suspend_WaitSuspendEvent \<longrightarrow> m_SuspendEvent (core S) = 0) \<and>
      (exec S = Exec_Suspending \<longrightarrow> m_ExecMode (core S) = ExecMode_Suspending))"

text \<open>
  A suspension that cannot complete: the mode is \<^verbatim>\<open>ExecMode_Suspending\<close>, thread
  \<open>t\<close> is parked at line 258 with no signal on \<^verbatim>\<open>m_SuspendEvent\<close>, and the
  execution thread is still in its start-up loop (lines 122-125) or has ended.
\<close>

definition startup_deadlock :: "nat \<Rightarrow> sys \<Rightarrow> bool" where
  "startup_deadlock t S =
     (m_ExecMode (core S) = ExecMode_Suspending \<and> m_SuspendEvent (core S) = 0
      \<and> callers S t = Suspend_WaitSuspendEvent
      \<and> (exec S = Exec_StartTest \<or> exec S = Exec_StartWait \<or> exec S = Exec_Exited))"

subsection \<open>Concrete configurations, states and runs\<close>

definition cfg0 :: Pcsx2Config where
  "cfg0 = \<lparr>Cpu = 0, Gamefixes = 0, Speedhacks = 0, Profiler = 0, SkipBiosSplash = False\<rparr>"

definition cfg_profiler :: Pcsx2Config where
  "cfg_profiler = \<lparr>Cpu = 0, Gamefixes = 0, Speedhacks = 0, Profiler = 1, SkipBiosSplash = False\<rparr>"

definition running0 :: CoreEmuThread where
  "running0 = (CoreEmuThread_new cfg0)\<lparr>m_ExecMode := ExecMode_Running\<rparr>"

definition suspended0 :: CoreEmuThread where
  "suspended0 = (CoreEmuThread_new cfg0)\<lparr>m_ExecMode := ExecMode_Suspended\<rparr>"

definition suspending0 :: CoreEmuThread where
  "suspending0 = (CoreEmuThread_new cfg0)\<lparr>m_ExecMode := ExecMode_Suspending\<rparr>"

text \<open>
  One caller: thread 1 resumes the new controller, the execution thread starts and
  passes a safe point, thread 1 suspends and is woken, resumes again, and the execution
  thread goes on.
\<close>

definition run_single :: "event list" where
  "run_single =
     [Ev_Call 1 Call_Resume, Ev_Caller 1, Ev_Caller 1, Ev_Caller 1, Ev_Caller 1,
      Ev_Exec, Ev_ExecInit False, Ev_Exec,
      Ev_Call 1 (Call_Suspend True), Ev_Exec, Ev_Exec, Ev_Caller 1,
      Ev_Call 1 Call_Resume, Ev_Caller 1, Ev_Caller 1, Ev_Caller 1, Ev_Caller 1,
      Ev_Exec, Ev_Exec, Ev_Exec]"

text \<open>
  Two callers: thread 1 resumes the new controller, the execution thread starts and
  passes a safe point, thread 1 calls \<^verbatim>\<open>Suspend\<close> and is parked at line 258, and
  thread 2 calls \<^verbatim>\<open>Resume\<close> before the execution thread reaches its next safe point.
\<close>

definition run_two_callers :: "event list" where
  "run_two_callers =
     [Ev_Call 1 Call_Resume, Ev_Caller 1, Ev_Caller 1, Ev_Caller 1, Ev_Caller 1,
      Ev_Exec, Ev_ExecInit False, Ev_Exec,
      Ev_Call 1 (Call_Suspend True), Ev_Call 2 Call_Resume]"

text \<open>
  One caller, at start-up: the execution thread tests line 122 and parks at line 124;
  thread 1 calls \<^verbatim>\<open>Resume\<close>, which returns, and then \<^verbatim>\<open>Suspend\<close>, before the
  execution thread has woken and tested line 122 again.
\<close>

definition run_startup_race :: "event list" where
  "run_startup_race =
     [Ev_Exec, Ev_Call 1 Call_Resume, Ev_Caller 1, Ev_Caller 1, Ev_Caller 1, Ev_Caller 1,
      Ev_Call 1 (Call_Suspend True)]"

text \<open>
  A signal left on \<^verbatim>\<open>m_SuspendEvent\<close>: thread 1 resumes the new controller and the
  execution thread starts; thread 1 calls \<^verbatim>\<open>Suspend\<close> and is parked; the execution
  thread sets \<^verbatim>\<open>ExecMode_Suspended\<close> and posts the signal, which thread 1 has not
  taken yet; thread 3 calls \<^verbatim>\<open>Resume\<close>, applies a configuration with another
  profiler group, and calls \<^verbatim>\<open>Suspend\<close>. \<open>stale0\<close> is the controller after this
  run; \<open>run_stale_resume\<close> goes on with a \<^verbatim>\<open>Resume\<close> of thread 2 and its next two
  statements.
\<close>

definition run_stale_signal :: "event list" where
  "run_stale_signal =
     [Ev_Call 1 Call_Resume, Ev_Caller 1, Ev_Caller 1, Ev_Caller 1, Ev_Caller 1,
      Ev_Exec, Ev_ExecInit False,
      Ev_Call 1 (Call_Suspend True), Ev_Exec, Ev_Exec,
      Ev_Call 3 Call_Resume, Ev_Caller 3, Ev_Caller 3, Ev_Caller 3, Ev_Caller 3,
      Ev_Call 3 (Call_ApplySettings cfg_profiler),
      Ev_Call 3 (Call_Suspend True)]"

definition run_stale_resume :: "event list" where
  "run_stale_resume = run_stale_signal @ [Ev_Call 2 Call_Resume, Ev_Caller 2, Ev_Caller 2]"

definition stale0 :: CoreEmuThread where
  "stale0 =
     \<lparr> m_ExecMode = ExecMode_Suspending, m_ResumeEvent = 2, m_SuspendEvent = 1,
       m_resetRecompilers = False, m_resetProfilers = True,
       EmuConfig = cfg_profiler, execCacheClears = 1 \<rparr>"

section \<open>The recovery store (RecoverySystem.cpp)\<close>

subsection \<open>Bytes and buffers\<close>

type_synonym u8 = "8 word"
type_synonym u32 = "32 word"

text \<open>
  A \<^verbatim>\<open>u32\<close> in memory, as the casts \<^verbatim>\<open>*((u32*)ptr)\<close> read and write it on the
  little-endian machines the emulator runs on: the low byte first.
\<close>

definition u32_bytes :: "u32 \<Rightarrow> u8 list" where
  "u32_bytes w = [ucast w, ucast (drop_bit 8 w), ucast (drop_bit 16 w), ucast (drop_bit 24 w)]"

fun bytes_u32 :: "u8 list \<Rightarrow> u32" where
  "bytes_u32 (b0 # b1 # b2 # b3 # rest) =
     ucast b0 OR push_bit 8 (ucast b1) OR push_bit 16 (ucast b2) OR push_bit 24 (ucast b3)"
| "bytes_u32 bs = 0"

text \<open>
  What a call can throw. \<open>RuntimeError\<close> is an exception that the handler of line 184
  catches, with its message; \<open>CreateStream\<close> is the exception of line 129, which no
  code of these files handles; \<open>OtherException\<close> is any exception the handler of line
  184 lets through. \<open>NullDereference\<close> and \<open>IndexOutOfBounds\<close> end a call that
  reads through a null pointer or outside a buffer, where C++ gives no defined result.
\<close>

datatype exn =
    RuntimeError string
  | CreateStream string string
  | AssertionFailure
  | NullDereference
  | IndexOutOfBounds
  | OtherException string

text \<open>
  \<^verbatim>\<open>*((u32*)buf->GetPtr(i))\<close> and a \<^verbatim>\<open>memcpy\<close> of \<open>n\<close> bytes out of a buffer
  at offset \<open>i\<close>.
\<close>

definition read_u32 :: "u8 list \<Rightarrow> nat \<Rightarrow> exn + u32" where
  "read_u32 buf i =
     (if i + 4 \<le> length buf then Inr (bytes_u32 (drop i buf)) else Inl IndexOutOfBounds)"

definition read_bytes :: "u8 list \<Rightarrow> nat \<Rightarrow> nat \<Rightarrow> exn + u8 list" where
  "read_bytes buf i n =
     (if i + n \<le> length buf then Inr (take n (drop i buf)) else Inl IndexOutOfBounds)"

text \<open>
  Writing \<open>bs\<close> into a growable \<^verbatim>\<open>SafeArray<u8>\<close> at offset \<open>i\<close>. Bytes of the
  array that nothing has written yet read as zero.
\<close>

definition mem_write :: "u8 list \<Rightarrow> nat \<Rightarrow> u8 list \<Rightarrow> u8 list" where
  "mem_write m i bs =
     take i (m @ replicate (i - length m) 0) @ bs @ drop (i + length bs) m"

text \<open>
  \<^verbatim>\<open>memSavingState\<close> and \<^verbatim>\<open>memLoadingState\<close> share the buffer \<^verbatim>\<open>m_memory\<close> and
  the cursor \<^verbatim>\<open>m_idx\<close> of their base class.
\<close>

record memBaseStateInfo =
  m_memory :: "u8 list"
  m_idx :: nat

text \<open>
  Modelled from the spec: the base classes \<^verbatim>\<open>memSavingState\<close> and
  \<^verbatim>\<open>memLoadingState\<close> are not among the source files. A saving pass appends at the
  cursor and moves it; a generic subsystem record is
  \<^verbatim>\<open>[u32 payload_length][payload_length bytes]\<close>; the display subsystem's second
  pass (\<^verbatim>\<open>gsFreeze\<close>) writes its bytes with no framing of its own. The bytes a live
  subsystem hands over are parameters (\<open>plugin\<close>, \<open>gs\<close>).
\<close>

definition FreezeMem :: "u8 list \<Rightarrow> memBaseStateInfo \<Rightarrow> memBaseStateInfo" where
  "FreezeMem bs st =
     st\<lparr>m_memory := mem_write (m_memory st) (m_idx st) bs, m_idx := m_idx st + length bs\<rparr>"

definition memSavingState_FreezePlugin :: "u8 list \<Rightarrow> memBaseStateInfo \<Rightarrow> memBaseStateInfo" where
  "memSavingState_FreezePlugin plugin st =
     FreezeMem plugin (FreezeMem (u32_bytes (of_nat (length plugin))) st)"

definition memSavingState_gsFreeze :: "u8 list \<Rightarrow> memBaseStateInfo \<Rightarrow> memBaseStateInfo" where
  "memSavingState_gsFreeze gs st = FreezeMem gs st"

subsection \<open>JustGsSavingState::gsFreeze (lines 279-289)\<close>

text \<open>
  The cursor skips four bytes, the base pass writes the payload, and the skipped slot
  receives \<^verbatim>\<open>(m_idx - oldmidx) - 4\<close> as a 32-bit value. \<^verbatim>\<open>IsSaving()\<close> holds for a
  saving state.
\<close>

definition JustGsSavingState_gsFreeze :: "u8 list \<Rightarrow> memBaseStateInfo \<Rightarrow> memBaseStateInfo" where
  "JustGsSavingState_gsFreeze gs st =
     (let oldmidx = m_idx st;
          st1 = st\<lparr>m_idx := m_idx st + 4\<rparr>;
          st2 = memSavingState_gsFreeze gs st1;
          len = (of_nat (m_idx st2) - of_nat oldmidx) - 4 :: u32
      in st2\<lparr>m_memory := mem_write (m_memory st2) oldmidx (u32_bytes len)\<rparr>)"

subsection \<open>The store\<close>

text \<open>
  The two globals \<^verbatim>\<open>g_RecoveryState\<close> and \<^verbatim>\<open>g_gsRecoveryState\<close> (\<open>None\<close> is the
  null pointer), the answer of \<^verbatim>\<open>EmulationInProgress()\<close>, and a journal of the calls
  made to collaborators outside the source files, oldest first.
\<close>

datatype effect =
    Eff_SysSuspend
  | Eff_SysResume
  | Eff_MsgboxAlert string
  | Eff_ConsoleStatus string
  | Eff_SysClearExecutionCache
  | Eff_GSsetGameCRC
  | Eff_ThawAll "u8 list"
  | Eff_ThawPlugin string "u8 list"
  | Eff_ThawGs "u8 list"
  | Eff_gzopen string
  | Eff_gzwrite "u8 list"
  | Eff_gzclose

record recovery =
  g_RecoveryState :: "u8 list option"
  g_gsRecoveryState :: "u8 list option"
  EmulationInProgress :: bool
  journal :: "effect list"

definition emit :: "effect list \<Rightarrow> recovery \<Rightarrow> recovery" where
  "emit es r = r\<lparr>journal := journal r @ es\<rparr>"

definition HasState :: "recovery \<Rightarrow> bool" where
  "HasState r = (g_RecoveryState r \<noteq> None \<or> g_gsRecoveryState r \<noteq> None)"

definition Clear :: "recovery \<Rightarrow> recovery" where
  "Clear r = r\<lparr>g_RecoveryState := None, g_gsRecoveryState := None\<rparr>"

subsection \<open>The recovery-aware writers (lines 204-271)\<close>

text \<open>
  \<^verbatim>\<open>RecoveryMemSavingState::FreezePlugin\<close>. \<open>isGS\<close> says that the freezer is
  \<^verbatim>\<open>gsSafeFreeze\<close>, \<open>plugin\<close> is what the live plugin would hand over. For the GS
  plugin with a partial buffer, the buffer's first record is copied, length prefix
  included.
\<close>

definition RecoveryMemSavingState_FreezePlugin ::
  "bool \<Rightarrow> u8 list option \<Rightarrow> u8 list \<Rightarrow> memBaseStateInfo \<Rightarrow> exn + memBaseStateInfo" where
  "RecoveryMemSavingState_FreezePlugin isGS gsRecovery plugin st =
     (case (isGS, gsRecovery) of
        (True, Some buf) \<Rightarrow>
          (case read_u32 buf 0 of
             Inl ex \<Rightarrow> Inl ex
           | Inr len \<Rightarrow>
               (case read_bytes buf 0 (unat (len + 4)) of
                  Inl ex \<Rightarrow> Inl ex
                | Inr bs \<Rightarrow> Inr (FreezeMem bs st)))
      | _ \<Rightarrow> Inr (memSavingState_FreezePlugin plugin st))"

text \<open>
  \<^verbatim>\<open>RecoveryMemSavingState::gsFreeze\<close>: with a partial buffer, \<open>gslen\<close> bytes are
  copied from offset \<open>pluginlen + 8\<close>, behind the length prefix of the second block.
\<close>

definition RecoveryMemSavingState_gsFreeze ::
  "u8 list option \<Rightarrow> u8 list \<Rightarrow> memBaseStateInfo \<Rightarrow> exn + memBaseStateInfo" where
  "RecoveryMemSavingState_gsFreeze gsRecovery gs st =
     (case gsRecovery of
        None \<Rightarrow> Inr (memSavingState_gsFreeze gs st)
      | Some buf \<Rightarrow>
          (case read_u32 buf 0 of
             Inl ex \<Rightarrow> Inl ex
           | Inr pluginlen \<Rightarrow>
               (case read_u32 buf (unat (pluginlen + 4)) of
                  Inl ex \<Rightarrow> Inl ex
                | Inr gslen \<Rightarrow>
                    (case read_bytes buf (unat (pluginlen + 8)) (unat gslen) of
                       Inl ex \<Rightarrow> Inl ex
                     | Inr bs \<Rightarrow> Inr (FreezeMem bs st)))))"

text \<open>
  The zipped writer appends to a file; its result is the bytes handed to \<^verbatim>\<open>gzwrite\<close>.
  \<^verbatim>\<open>RecoveryZipSavingState::gsFreeze\<close> takes \<open>gslen\<close> bytes from offset
  \<open>pluginlen + 4\<close>.
\<close>

definition RecoveryZipSavingState_FreezePlugin ::
  "bool \<Rightarrow> u8 list option \<Rightarrow> u8 list \<Rightarrow> exn + u8 list" where
  "RecoveryZipSavingState_FreezePlugin isGS gsRecovery plugin =
     (case (isGS, gsRecovery) of
        (True, Some buf) \<Rightarrow>
          (case read_u32 buf 0 of
             Inl ex \<Rightarrow> Inl ex
           | Inr len \<Rightarrow> read_bytes buf 0 (unat (len + 4)))
      | _ \<Rightarrow> Inr (u32_bytes (of_nat (length plugin)) @ plugin))"

definition RecoveryZipSavingState_gsFreeze ::
  "u8 list option \<Rightarrow> u8 list \<Rightarrow> exn + u8 list" where
  "RecoveryZipSavingState_gsFreeze gsRecovery gs =
     (case gsRecovery of
        None \<Rightarrow> Inr gs
      | Some buf \<Rightarrow>
          (case read_u32 buf 0 of
             Inl ex \<Rightarrow> Inl ex
           | Inr pluginlen \<Rightarrow>
               (case read_u32 buf (unat (pluginlen + 4)) of
                  Inl ex \<Rightarrow> Inl ex
                | Inr gslen \<Rightarrow> read_bytes buf (unat (pluginlen + 4)) (unat gslen))))"

subsection \<open>MakeGsOnly (lines 156-165)\<close>

text \<open>
  The buffer starts empty; the writer puts the generic record of the GS plugin first and
  the framed second block behind it.
\<close>

definition MakeGsOnly :: "u8 list \<Rightarrow> u8 list \<Rightarrow> recovery \<Rightarrow> recovery" where
  "MakeGsOnly plugin gs r =
     (let r1 = Clear r
      in if \<not> EmulationInProgress r1 then r1
         else
           let eddie = \<lparr>m_memory = [], m_idx = 0\<rparr>;
               eddie1 = memSavingState_FreezePlugin plugin eddie;
               eddie2 = JustGsSavingState_gsFreeze gs eddie1
           in r1\<lparr>g_gsRecoveryState := Some (m_memory eddie2)\<rparr>)"

subsection \<open>MakeFull (lines 171-194)\<close>

text \<open>
  \<^verbatim>\<open>RecoveryMemSavingState().FreezeAll()\<close>. The constructor (line 204) binds
  \<^verbatim>\<open>*g_RecoveryState\<close>. The traversal \<^verbatim>\<open>FreezeAll\<close> itself is outside the source
  files and is the parameter \<open>FreezeAll\<close>: given the partial buffer that the two
  overrides above consult, it throws or yields the bytes of the whole machine.
\<close>

definition RecoveryMemSavingState_FreezeAll ::
  "(u8 list option \<Rightarrow> exn + u8 list) \<Rightarrow> recovery \<Rightarrow> exn + recovery" where
  "RecoveryMemSavingState_FreezeAll FreezeAll r =
     (case g_RecoveryState r of
        None \<Rightarrow> Inl NullDereference
      | Some buf \<Rightarrow>
          (case FreezeAll (g_gsRecoveryState r) of
             Inl ex \<Rightarrow> Inl ex
           | Inr bytes \<Rightarrow> Inr (r\<lparr>g_RecoveryState := Some bytes\<rparr>)))"

definition MakeFull :: "(u8 list option \<Rightarrow> exn + u8 list) \<Rightarrow> recovery \<Rightarrow> exn + recovery" where
  "MakeFull FreezeAll r =
     (if g_RecoveryState r \<noteq> None then Inr r
      else if \<not> EmulationInProgress r then Inr r
      else
        let r1 = emit [Eff_SysSuspend] r;
            r2 = r1\<lparr>g_RecoveryState := Some []\<rparr>
        in case RecoveryMemSavingState_FreezeAll FreezeAll r2 of
             Inr r3 \<Rightarrow> Inr (r3\<lparr>g_gsRecoveryState := None\<rparr>)
           | Inl ex \<Rightarrow>
               (case ex of
                  RuntimeError msg \<Rightarrow>
                    Inr ((emit [Eff_MsgboxAlert msg] r2)\<lparr>g_RecoveryState := None\<rparr>)
                | _ \<Rightarrow> Inl ex))"

subsection \<open>SaveToFile and SaveToSlot (lines 115-150)\<close>

text \<open>
  \<open>ZipFreezeAll\<close> is the traversal of \<^verbatim>\<open>RecoveryZipSavingState(file).FreezeAll()\<close>,
  \<open>gzopen_ok\<close> says whether \<^verbatim>\<open>gzopen\<close> returns a file, \<open>g_SaveVersion\<close> is the
  format version, a constant declared outside the source files.
\<close>

definition SaveToFile ::
  "(u8 list option \<Rightarrow> exn + u8 list) \<Rightarrow> (u8 list option \<Rightarrow> exn + u8 list) \<Rightarrow> bool \<Rightarrow> u32
     \<Rightarrow> string \<Rightarrow> recovery \<Rightarrow> exn + recovery" where
  "SaveToFile FreezeAll ZipFreezeAll gzopen_ok g_SaveVersion file r =
     (let r1 = emit [Eff_SysSuspend] r
      in case (if g_RecoveryState r1 = None
               then RecoveryMemSavingState_FreezeAll FreezeAll r1 else Inr r1) of
           Inl ex \<Rightarrow> Inl ex
         | Inr r2 \<Rightarrow>
             let r3 = emit [Eff_SysResume] r2
             in (case g_RecoveryState r3 of
                   Some buf \<Rightarrow>
                     if \<not> gzopen_ok
                     then Inl (CreateStream file ''General savestate file creation error.'')
                     else Inr (emit [Eff_gzopen file, Eff_gzwrite (u32_bytes g_SaveVersion),
                                     Eff_gzwrite buf, Eff_gzclose] r3)
                 | None \<Rightarrow>
                     if \<not> EmulationInProgress r3 then Inr r3
                     else (case ZipFreezeAll (g_gsRecoveryState r3) of
                             Inl ex \<Rightarrow> Inl ex
                           | Inr bytes \<Rightarrow>
                               Inr (emit [Eff_gzopen file, Eff_gzwrite bytes, Eff_gzclose] r3))))"

definition SaveToSlot ::
  "(nat \<Rightarrow> string) \<Rightarrow> (u8 list option \<Rightarrow> exn + u8 list) \<Rightarrow> (u8 list option \<Rightarrow> exn + u8 list)
     \<Rightarrow> bool \<Rightarrow> u32 \<Rightarrow> nat \<Rightarrow> recovery \<Rightarrow> exn + recovery" where
  "SaveToSlot GetFilename FreezeAll ZipFreezeAll gzopen_ok g_SaveVersion num r =
     SaveToFile FreezeAll ZipFreezeAll gzopen_ok g_SaveVersion (GetFilename num) r"

subsection \<open>Recover (lines 79-105)\<close>

text \<open>
  Modelled from the spec: the readers of \<^verbatim>\<open>memLoadingState\<close> are not among the source
  files. They consume what the writers produce: \<^verbatim>\<open>FreezePlugin\<close> reads a generic
  record \<^verbatim>\<open>[u32 payload_length][payload_length bytes]\<close> at the cursor, and
  \<^verbatim>\<open>Freeze\<close> of an \<^verbatim>\<open>s32\<close> reads four bytes.
\<close>

definition memLoadingState_FreezePlugin ::
  "memBaseStateInfo \<Rightarrow> exn + (u8 list \<times> memBaseStateInfo)" where
  "memLoadingState_FreezePlugin st =
     (case read_u32 (m_memory st) (m_idx st) of
        Inl ex \<Rightarrow> Inl ex
      | Inr len \<Rightarrow>
          (case read_bytes (m_memory st) (m_idx st + 4) (unat len) of
             Inl ex \<Rightarrow> Inl ex
           | Inr bs \<Rightarrow> Inr (bs, st\<lparr>m_idx := m_idx st + 4 + unat len\<rparr>)))"

definition memLoadingState_Freeze :: "memBaseStateInfo \<Rightarrow> exn + (u32 \<times> memBaseStateInfo)" where
  "memLoadingState_Freeze st =
     (case read_u32 (m_memory st) (m_idx st) of
        Inl ex \<Rightarrow> Inl ex
      | Inr v \<Rightarrow> Inr (v, st\<lparr>m_idx := m_idx st + 4\<rparr>))"

text \<open>
  A thaw is a call into the machine and the plugins; \<open>thaw\<close> says whether the call
  throws. A call that returns is entered in the journal with the bytes it was given.
\<close>

definition perform :: "(effect \<Rightarrow> exn option) \<Rightarrow> effect \<Rightarrow> recovery \<Rightarrow> exn + recovery" where
  "perform thaw e r = (case thaw e of Some ex \<Rightarrow> Inl ex | None \<Rightarrow> Inr (emit [e] r))"

text \<open>
  Lines 84-98. With the partial buffer only: the record of the GS plugin, the recorded
  length (read and dropped), then the second pass of the display subsystem, which reads
  at the cursor; the journal records the bytes from the cursor to the end of the buffer.
\<close>

definition Recover_thaw :: "(effect \<Rightarrow> exn option) \<Rightarrow> recovery \<Rightarrow> exn + recovery" where
  "Recover_thaw thaw r =
     (case g_RecoveryState r of
        Some buf \<Rightarrow>
          perform thaw (Eff_ThawAll buf)
            (emit [Eff_ConsoleStatus ''Resuming execution from full memory state...''] r)
      | None \<Rightarrow>
          (case g_gsRecoveryState r of
             None \<Rightarrow> Inr r
           | Some gbuf \<Rightarrow>
               let r1 = emit [Eff_ConsoleStatus ''Resuming execution from gsState...''] r;
                   eddie = \<lparr>m_memory = gbuf, m_idx = 0\<rparr>
               in (case memLoadingState_FreezePlugin eddie of
                     Inl ex \<Rightarrow> Inl ex
                   | Inr (data, eddie1) \<Rightarrow>
                       (case perform thaw (Eff_ThawPlugin ''GS'' data) r1 of
                          Inl ex \<Rightarrow> Inl ex
                        | Inr r2 \<Rightarrow>
                            (case memLoadingState_Freeze eddie1 of
                               Inl ex \<Rightarrow> Inl ex
                             | Inr (dummylen, eddie2) \<Rightarrow>
                                 perform thaw
                                   (Eff_ThawGs (drop (m_idx eddie2) (m_memory eddie2))) r2)))))"

text \<open>
  The whole function. The two \<^verbatim>\<open>wxASSERT\<close>s of lines 81-82 end the call when the
  controller does not exist or the caller is not the execution thread; \<open>hasGSsetGameCRC\<close>
  says that the plugin exports \<^verbatim>\<open>GSsetGameCRC\<close>.
\<close>

definition Recover ::
  "bool \<Rightarrow> bool \<Rightarrow> bool \<Rightarrow> (effect \<Rightarrow> exn option) \<Rightarrow> recovery \<Rightarrow> exn + recovery" where
  "Recover haveEmuThread isSelf hasGSsetGameCRC thaw r =
     (if \<not> haveEmuThread then Inl AssertionFailure
      else if \<not> isSelf then Inl AssertionFailure
      else case Recover_thaw thaw r of
             Inl ex \<Rightarrow> Inl ex
           | Inr r1 \<Rightarrow>
               let r2 = emit [Eff_SysClearExecutionCache] (Clear r1)
               in Inr (if hasGSsetGameCRC then emit [Eff_GSsetGameCRC] r2 else r2))"

subsection \<open>Concrete inputs\<close>

text \<open>A freeze pass that returns the given bytes, one that throws, a thaw that returns.\<close>

definition FreezeAll_gives :: "u8 list \<Rightarrow> u8 list option \<Rightarrow> exn + u8 list" where
  "FreezeAll_gives bytes gsRecovery = Inr bytes"

definition FreezeAll_throws :: "exn \<Rightarrow> u8 list option \<Rightarrow> exn + u8 list" where
  "FreezeAll_throws ex gsRecovery = Inl ex"

definition thaw_ok :: "effect \<Rightarrow> exn option" where
  "thaw_ok e = None"

text \<open>A store with a running session, no buffer and an empty journal.\<close>

definition session0 :: recovery where
  "session0 = \<lparr>g_RecoveryState = None, g_gsRecoveryState = None,
               EmulationInProgress = True, journal = []\<rparr>"

text \<open>The same store holding a partial buffer, and one holding both buffers.\<close>

definition session_gs :: recovery where
  "session_gs = session0\<lparr>g_gsRecoveryState := Some [0, 0, 0, 0, 0, 0, 0, 0]\<rparr>"

definition session_both :: recovery where
  "session_both = session_gs\<lparr>g_RecoveryState := Some [1, 2, 3]\<rparr>"

text \<open>How often an effect occurs in a journal.\<close>

definition occurrences :: "effect \<Rightarrow> recovery \<Rightarrow> nat" where
  "occurrences e r = length (filter (\<lambda>x. x = e) (journal r))"

text \<open>
  The layout of a partial buffer: the generic record of the GS plugin, then the second
  block with its length prefix.
\<close>

definition partial_buffer :: "u8 list \<Rightarrow> u8 list \<Rightarrow> u8 list" where
  "partial_buffer plugin gs =
     u32_bytes (of_nat (length plugin)) @ plugin @ u32_bytes (of_nat (length gs)) @ gs"

section \<open>Properties of the execution state controller\<close>

lemmas step_defs = set_caller_def set_exec_def can_call_def IsRunning_def
  Suspend_enter_def Resume_enter_def ApplySettings_def Resume_resets_def
  Post_ResumeEvent_def Post_SuspendEvent_def Wait_ResumeEvent_def Wait_SuspendEvent_def
  SysClearExecutionCache_def CpuInitializeMess_def DevAssert_throws_def Let_def

lemmas run_defs = step_defs sys_new_def CoreEmuThread_new_def cfg0_def

subsection \<open>The mode is never idle at a safe point\<close>

lemma never_idle_step: "never_idle_inv S \<Longrightarrow> never_idle_inv (step e S)"
proof (cases e)
  case (Ev_Call t c)
  assume "never_idle_inv S"
  then show ?thesis using Ev_Call
    by (cases c) (auto simp: never_idle_inv_def step_defs)
next
  case (Ev_Caller t)
  assume "never_idle_inv S"
  then show ?thesis using Ev_Caller
    by (cases "callers S t")
      (auto simp: never_idle_inv_def step_defs split: option.splits)
next
  case Ev_Exec
  assume "never_idle_inv S"
  then show ?thesis using Ev_Exec
    by (cases "exec S"; cases "m_ExecMode (core S)")
      (auto simp: never_idle_inv_def step_defs split: option.splits)
next
  case (Ev_ExecInit h)
  assume "never_idle_inv S"
  then show ?thesis using Ev_ExecInit
    by (auto simp: never_idle_inv_def step_defs)
next
  case Ev_ExecExit
  assume "never_idle_inv S"
  then show ?thesis using Ev_ExecExit
    by (auto simp: never_idle_inv_def step_defs)
qed

lemma never_idle_trace:
  "never_idle_inv S \<Longrightarrow> \<forall>S' \<in> set (trace S evs). never_idle_inv S'"
proof (induction evs arbitrary: S)
  case Nil
  then show ?case by simp
next
  case (Cons e evs)
  from Cons.prems have "never_idle_inv (step e S)" by (rule never_idle_step)
  then have "\<forall>S' \<in> set (trace (step e S) evs). never_idle_inv S'" by (rule Cons.IH)
  with Cons.prems show ?case by simp
qed

lemma never_idle_new: "never_idle_inv (sys_new cfg)"
  by (simp add: never_idle_inv_def sys_new_def CoreEmuThread_new_def)

subsection \<open>One caller: no way from Suspending to Running but through Suspended\<close>

lemma single_step:
  "single_inv t S \<Longrightarrow> by_thread t e \<Longrightarrow>
     single_inv t (step e S) \<and> suspending_step_ok S (step e S)"
proof (cases e)
  case (Ev_Call t' c)
  assume "single_inv t S" "by_thread t e"
  then show ?thesis using Ev_Call
    by (cases c; cases "m_ExecMode (core S)")
      (auto simp: single_inv_def suspending_step_ok_def step_defs)
next
  case (Ev_Caller t')
  assume "single_inv t S" "by_thread t e"
  then show ?thesis using Ev_Caller
    by (cases "callers S t"; cases "m_ExecMode (core S)")
      (auto simp: single_inv_def suspending_step_ok_def step_defs split: option.splits)
next
  case Ev_Exec
  assume "single_inv t S" "by_thread t e"
  then show ?thesis using Ev_Exec
    by (cases "exec S"; cases "m_ExecMode (core S)")
      (auto simp: single_inv_def suspending_step_ok_def step_defs split: option.splits)
next
  case (Ev_ExecInit h)
  assume "single_inv t S" "by_thread t e"
  then show ?thesis using Ev_ExecInit
    by (auto simp: single_inv_def suspending_step_ok_def step_defs)
next
  case Ev_ExecExit
  assume "single_inv t S" "by_thread t e"
  then show ?thesis using Ev_ExecExit
    by (auto simp: single_inv_def suspending_step_ok_def step_defs)
qed

lemma trace_head: "trace S evs = S # tl (trace S evs)"
  by (cases evs) simp_all

lemma single_trace:
  "single_inv t S \<Longrightarrow> \<forall>e \<in> set evs. by_thread t e \<Longrightarrow>
     suspending_then_suspended (trace S evs)"
proof (induction evs arbitrary: S)
  case Nil
  then show ?case by simp
next
  case (Cons e evs)
  from Cons.prems have st: "single_inv t (step e S)" "suspending_step_ok S (step e S)"
    using single_step [of t S e] by auto
  from Cons.prems have "\<forall>e \<in> set evs. by_thread t e" by simp
  with st(1) have ih: "suspending_then_suspended (trace (step e S) evs)"
    by (rule Cons.IH)
  obtain rest where "trace (step e S) evs = step e S # rest"
    using trace_head by blast
  with ih st(2) show ?case by simp
qed

lemma single_new: "single_inv t (sys_new cfg)"
  by (simp add: single_inv_def sys_new_def CoreEmuThread_new_def)

text \<open>
  With several callers the mode goes from \<^verbatim>\<open>ExecMode_Suspending\<close> to
  \<^verbatim>\<open>ExecMode_Running\<close> in one step only through \<^verbatim>\<open>Resume\<close>: its locked block
  finding no pending reset (line 212), or its unlocked assignment of line 228.
\<close>

lemma suspending_to_running_by_Resume:
  assumes "m_ExecMode (core S) = ExecMode_Suspending"
    "m_ExecMode (core (step e S)) = ExecMode_Running"
  shows "(\<exists>t. e = Ev_Call t Call_Resume
              \<and> \<not> m_resetRecompilers (core S) \<and> \<not> m_resetProfilers (core S))
       \<or> (\<exists>t. e = Ev_Caller t \<and> callers S t = Resume_SetRunning)"
proof (cases e)
  case (Ev_Call t c)
  with assms show ?thesis
    by (cases c) (auto simp: step_defs split: if_splits)
next
  case (Ev_Caller t)
  with assms show ?thesis
    by (cases "callers S t") (auto simp: step_defs split: option.splits if_splits)
next
  case Ev_Exec
  with assms show ?thesis
    by (cases "exec S") (auto simp: step_defs split: option.splits if_splits)
next
  case (Ev_ExecInit h)
  with assms show ?thesis by (auto simp: step_defs split: if_splits)
next
  case Ev_ExecExit
  with assms show ?thesis by (auto simp: step_defs split: if_splits)
qed

text \<open>
  Two facts of safety. In every run from the new controller, whatever the callers do,
  the safe-point check never reads \<^verbatim>\<open>ExecMode_Idle\<close>: the assertion of line 141
  never fires and the execution thread never stands in front of the \<^verbatim>\<open>switch\<close> with
  the mode idle. When all calls come from one thread, each call after the previous one
  has returned, the mode never leaves \<^verbatim>\<open>ExecMode_Suspending\<close> except for
  \<^verbatim>\<open>ExecMode_Suspended\<close> with \<^verbatim>\<open>m_SuspendEvent\<close> posted. Neither fact says that a
  suspension completes.
\<close>

lemma runs_are_safe:
  "(\<forall>S \<in> set (trace (sys_new cfg) evs). \<not> observed_idle S \<and> \<not> idle_at_safe_point S)
   \<and> ((\<forall>e \<in> set evs. by_thread t e) \<longrightarrow> suspending_then_suspended (trace (sys_new cfg) evs))"
proof
  have "\<forall>S \<in> set (trace (sys_new cfg) evs). never_idle_inv S"
    by (rule never_idle_trace) (rule never_idle_new)
  then show "\<forall>S \<in> set (trace (sys_new cfg) evs). \<not> observed_idle S \<and> \<not> idle_at_safe_point S"
    by (auto simp: never_idle_inv_def observed_idle_def idle_at_safe_point_def)
next
  show "(\<forall>e \<in> set evs. by_thread t e) \<longrightarrow> suspending_then_suspended (trace (sys_new cfg) evs)"
    using single_trace [OF single_new] by blast
qed

lemma modes_run_single:
  "modes (trace (sys_new cfg0) run_single) =
    [ExecMode_Idle, ExecMode_Idle, ExecMode_Idle, ExecMode_Idle, ExecMode_Running,
     ExecMode_Running, ExecMode_Running, ExecMode_Running, ExecMode_Running,
     ExecMode_Suspending, ExecMode_Suspending, ExecMode_Suspended, ExecMode_Suspended,
     ExecMode_Suspended, ExecMode_Suspended, ExecMode_Suspended, ExecMode_Running,
     ExecMode_Running, ExecMode_Running, ExecMode_Running, ExecMode_Running]"
  by (simp add: modes_def run_single_def run_defs)

text \<open>
  With two callers the mode can go from \<^verbatim>\<open>ExecMode_Suspending\<close> straight to
  \<^verbatim>\<open>ExecMode_Running\<close>: thread 2 finds \<^verbatim>\<open>ExecMode_Suspending\<close> with no reset
  pending while thread 1 is parked in \<^verbatim>\<open>Suspend\<close>, and line 212 sets
  \<^verbatim>\<open>ExecMode_Running\<close>.
\<close>

lemma two_callers_rescind:
  "modes (trace (sys_new cfg0) run_two_callers) =
     [ExecMode_Idle, ExecMode_Idle, ExecMode_Idle, ExecMode_Idle, ExecMode_Running,
      ExecMode_Running, ExecMode_Running, ExecMode_Running, ExecMode_Running,
      ExecMode_Suspending, ExecMode_Running]
   \<and> \<not> suspending_then_suspended (trace (sys_new cfg0) run_two_callers)"
  by (simp add: modes_def run_two_callers_def run_defs suspending_step_ok_def)

subsection \<open>A suspension requested during start-up never completes\<close>

lemma trace_not_Nil: "trace S evs \<noteq> []"
  by (cases evs) simp_all

lemma trace_append:
  "trace S (xs @ ys) = butlast (trace S xs) @ trace (last (trace S xs)) ys"
  by (induction xs arbitrary: S) (simp_all add: trace_not_Nil)

text \<open>
  Once the suspension is stuck it stays stuck, whatever the caller and the execution
  thread do: the caller cannot start a call and has no signal to take, and the
  execution thread finds the mode different from \<^verbatim>\<open>ExecMode_Running\<close> at line 122 and
  waits at line 124, with or without a signal on \<^verbatim>\<open>m_ResumeEvent\<close>.
\<close>

lemma startup_deadlock_step:
  "startup_deadlock t S \<Longrightarrow> by_thread t e \<Longrightarrow> startup_deadlock t (step e S)"
proof (cases e)
  case (Ev_Call t' c)
  assume "startup_deadlock t S" "by_thread t e"
  then show ?thesis using Ev_Call
    by (cases c) (auto simp: startup_deadlock_def step_defs)
next
  case (Ev_Caller t')
  assume "startup_deadlock t S" "by_thread t e"
  then show ?thesis using Ev_Caller
    by (auto simp: startup_deadlock_def step_defs)
next
  case Ev_Exec
  assume "startup_deadlock t S" "by_thread t e"
  then show ?thesis using Ev_Exec
    by (cases "exec S") (auto simp: startup_deadlock_def step_defs split: if_splits)
next
  case (Ev_ExecInit h)
  assume "startup_deadlock t S" "by_thread t e"
  then show ?thesis using Ev_ExecInit
    by (auto simp: startup_deadlock_def step_defs)
next
  case Ev_ExecExit
  assume "startup_deadlock t S" "by_thread t e"
  then show ?thesis using Ev_ExecExit
    by (auto simp: startup_deadlock_def step_defs)
qed

lemma startup_deadlock_forever:
  "startup_deadlock t S \<Longrightarrow>
     modes (trace S (filter (by_thread t) evs))
       = replicate (Suc (length (filter (by_thread t) evs))) ExecMode_Suspending
     \<and> startup_deadlock t (last (trace S (filter (by_thread t) evs)))"
proof (induction evs arbitrary: S)
  case Nil
  then show ?case by (simp add: modes_def startup_deadlock_def)
next
  case (Cons e evs)
  show ?case
  proof (cases "by_thread t e")
    case True
    with Cons.prems have "startup_deadlock t (step e S)"
      by (simp add: startup_deadlock_step)
    from Cons.IH [OF this] Cons.prems True show ?thesis
      by (simp add: modes_def startup_deadlock_def trace_not_Nil)
  next
    case False
    with Cons.IH [OF Cons.prems] show ?thesis by simp
  qed
qed

lemma startup_race_state:
  "modes (butlast (trace (sys_new cfg0) run_startup_race)) =
     [ExecMode_Idle, ExecMode_Idle, ExecMode_Idle, ExecMode_Idle, ExecMode_Idle,
      ExecMode_Running, ExecMode_Running]
   \<and> startup_deadlock 1 (last (trace (sys_new cfg0) run_startup_race))"
  by (simp add: modes_def run_startup_race_def run_defs startup_deadlock_def)

text \<open>
  C1, at an input where the code and the claim part. One thread calls \<^verbatim>\<open>Resume\<close> on
  the new controller and then \<^verbatim>\<open>Suspend\<close>, before the execution thread, parked at
  line 124, has woken and tested line 122 again. The call of \<^verbatim>\<open>Suspend\<close> enters
  \<^verbatim>\<open>ExecMode_Suspending\<close>, and the mode is \<^verbatim>\<open>ExecMode_Suspending\<close> in every later
  state, whatever thread 1 and the execution thread do next (\<open>evs\<close> is any
  continuation; the events of other threads are left out of it): the mode is never
  \<^verbatim>\<open>ExecMode_Suspended\<close>, \<^verbatim>\<open>m_SuspendEvent\<close> is never posted, the caller stays
  parked at line 258 and the execution thread stays in the loop of lines 122-125 or
  ends.
\<close>

theorem Suspend_at_startup_never_completes:
  "modes (trace (sys_new cfg0) (run_startup_race @ filter (by_thread 1) evs)) =
     [ExecMode_Idle, ExecMode_Idle, ExecMode_Idle, ExecMode_Idle, ExecMode_Idle,
      ExecMode_Running, ExecMode_Running]
     @ replicate (Suc (length (filter (by_thread 1) evs))) ExecMode_Suspending
   \<and> startup_deadlock 1
       (last (trace (sys_new cfg0) (run_startup_race @ filter (by_thread 1) evs)))"
proof -
  let ?S = "last (trace (sys_new cfg0) run_startup_race)"
  have d: "startup_deadlock 1 ?S"
    using startup_race_state by simp
  have m: "modes (trace (sys_new cfg0) (run_startup_race @ filter (by_thread 1) evs)) =
      modes (butlast (trace (sys_new cfg0) run_startup_race))
      @ modes (trace ?S (filter (by_thread 1) evs))"
    by (simp add: trace_append modes_def)
  have l: "last (trace (sys_new cfg0) (run_startup_race @ filter (by_thread 1) evs))
      = last (trace ?S (filter (by_thread 1) evs))"
    by (simp add: trace_append trace_not_Nil)
  from startup_deadlock_forever [OF d, of evs] startup_race_state m l
  show ?thesis by simp
qed

subsection \<open>Suspend\<close>

lemma Suspend_noop:
  "isSelf \<or> \<not> isRunning \<or> m_ExecMode s = ExecMode_Suspended \<or> m_ExecMode s = ExecMode_Idle
     \<Longrightarrow> Suspend isBlocking isSelf isRunning s = (Caller_Ready, s)"
  by (auto simp: Suspend_def Suspend_enter_def numeral_eq_Suc)

lemma Suspend_enter_Running:
  "m_ExecMode s = ExecMode_Running \<Longrightarrow>
     Suspend_enter isBlocking False True s =
       (Suspend_WaitSuspendEvent, s\<lparr>m_ExecMode := ExecMode_Suspending\<rparr>)"
  by (simp add: Suspend_enter_def DevAssert_throws_def)

lemma Suspend_ignores_isBlocking:
  "Suspend isBlocking isSelf isRunning s = Suspend (\<not> isBlocking) isSelf isRunning s"
  by (simp add: Suspend_def Suspend_enter_def)

text \<open>
  C2, at the input where the code and the claim part: \<^verbatim>\<open>Suspend(false)\<close> from another
  thread, the execution thread alive, the mode \<^verbatim>\<open>ExecMode_Running\<close>, no signal on
  \<^verbatim>\<open>m_SuspendEvent\<close>. The call sets \<^verbatim>\<open>ExecMode_Suspending\<close> and does not return: the
  caller is parked at line 258, exactly as with \<^verbatim>\<open>Suspend(true)\<close>.
\<close>

theorem Suspend_nonblocking_parks:
  "Suspend False False True running0 =
     (Suspend_WaitSuspendEvent, running0\<lparr>m_ExecMode := ExecMode_Suspending\<rparr>)
   \<and> Suspend True False True running0 = Suspend False False True running0"
  by (simp add: Suspend_def Suspend_enter_def DevAssert_throws_def numeral_eq_Suc
      Wait_SuspendEvent_def running0_def CoreEmuThread_new_def)

subsection \<open>Resume\<close>

text \<open>
  A caller parked at line 208 leaves the wait only by taking a signal from
  \<^verbatim>\<open>m_SuspendEvent\<close>, and the only event that puts a signal there is the execution
  thread's locked block, which sets \<^verbatim>\<open>ExecMode_Suspended\<close>.
\<close>

lemma wait_ends_by_signal:
  assumes "callers S t = Resume_WaitSuspendEvent"
  shows "(callers (step e S) t = Resume_WaitSuspendEvent
          \<or> (e = Ev_Caller t \<and> m_SuspendEvent (core S) \<noteq> 0
              \<and> callers (step e S) t = Resume_DevAssert
              \<and> core (step e S) = (core S)\<lparr>m_SuspendEvent := m_SuspendEvent (core S) - 1\<rparr>))
       \<and> (m_SuspendEvent (core S) < m_SuspendEvent (core (step e S)) \<longrightarrow>
            e = Ev_Exec \<and> exec S = Exec_Suspending
            \<and> m_ExecMode (core (step e S)) = ExecMode_Suspended)"
proof (cases e)
  case (Ev_Call t' c)
  with assms show ?thesis
    by (cases c; cases "m_ExecMode (core S)") (auto simp: step_defs)
next
  case (Ev_Caller t')
  with assms show ?thesis
    by (cases "callers S t'"; cases "m_ExecMode (core S)")
      (auto simp: step_defs split: option.splits)
next
  case Ev_Exec
  with assms show ?thesis
    by (cases "exec S"; cases "m_ExecMode (core S)")
      (auto simp: step_defs split: option.splits)
next
  case (Ev_ExecInit h)
  with assms show ?thesis by (auto simp: step_defs)
next
  case Ev_ExecExit
  with assms show ?thesis by (auto simp: step_defs)
qed

text \<open>
  The two branches of lines 200-215, for a call from another thread with the execution
  thread alive. With a reset flag pending the locked block changes nothing and leaves
  the caller at the wait of line 208; on an empty \<^verbatim>\<open>m_SuspendEvent\<close> the call does
  not return; the caller leaves the wait only by taking a signal, and a signal only
  arrives with the execution thread's transition to \<^verbatim>\<open>ExecMode_Suspended\<close>. With no
  reset flag pending the call returns at once, and the only change is the mode, now
  \<^verbatim>\<open>ExecMode_Running\<close>: no signal is posted or taken.
\<close>

lemma Resume_while_Suspending_branches:
  assumes "m_ExecMode s = ExecMode_Suspending"
  shows "(m_resetRecompilers s \<or> m_resetProfilers s \<longrightarrow>
            Resume_enter False True s = (Resume_WaitSuspendEvent, s)
            \<and> (m_SuspendEvent s = 0 \<longrightarrow> Resume False True s = (Resume_WaitSuspendEvent, s))
            \<and> (\<forall>S t e. core S = s \<and> callers S t = Resume_WaitSuspendEvent \<longrightarrow>
                  (callers (step e S) t = Resume_WaitSuspendEvent
                   \<or> (e = Ev_Caller t \<and> m_SuspendEvent s \<noteq> 0
                       \<and> callers (step e S) t = Resume_DevAssert
                       \<and> core (step e S) = s\<lparr>m_SuspendEvent := m_SuspendEvent s - 1\<rparr>))
                  \<and> (m_SuspendEvent s < m_SuspendEvent (core (step e S)) \<longrightarrow>
                       e = Ev_Exec \<and> exec S = Exec_Suspending
                       \<and> m_ExecMode (core (step e S)) = ExecMode_Suspended)))
       \<and> (\<not> m_resetRecompilers s \<and> \<not> m_resetProfilers s \<longrightarrow>
            Resume False True s = (Caller_Ready, s\<lparr>m_ExecMode := ExecMode_Running\<rparr>))"
proof (intro conjI impI allI)
  assume "m_resetRecompilers s \<or> m_resetProfilers s"
  with assms show "Resume_enter False True s = (Resume_WaitSuspendEvent, s)"
    by (auto simp: Resume_enter_def)
next
  assume "m_resetRecompilers s \<or> m_resetProfilers s" "m_SuspendEvent s = 0"
  with assms show "Resume False True s = (Resume_WaitSuspendEvent, s)"
    by (auto simp: Resume_def Resume_enter_def numeral_eq_Suc Wait_SuspendEvent_def)
next
  fix S :: sys and t :: nat and e :: event
  assume a: "core S = s \<and> callers S t = Resume_WaitSuspendEvent"
  then have c: "callers S t = Resume_WaitSuspendEvent" by simp
  from wait_ends_by_signal [OF c, of e] a
  show "callers (step e S) t = Resume_WaitSuspendEvent
        \<or> (e = Ev_Caller t \<and> m_SuspendEvent s \<noteq> 0
            \<and> callers (step e S) t = Resume_DevAssert
            \<and> core (step e S) = s\<lparr>m_SuspendEvent := m_SuspendEvent s - 1\<rparr>)"
    by blast
next
  fix S :: sys and t :: nat and e :: event
  assume a: "core S = s \<and> callers S t = Resume_WaitSuspendEvent"
    and b: "m_SuspendEvent s < m_SuspendEvent (core (step e S))"
  then have c: "callers S t = Resume_WaitSuspendEvent" by simp
  from wait_ends_by_signal [OF c, of e] a b
  show "e = Ev_Exec" "exec S = Exec_Suspending"
    "m_ExecMode (core (step e S)) = ExecMode_Suspended"
    by blast+
next
  assume "\<not> m_resetRecompilers s \<and> \<not> m_resetProfilers s"
  with assms show "Resume False True s = (Caller_Ready, s\<lparr>m_ExecMode := ExecMode_Running\<rparr>)"
    by (auto simp: Resume_def Resume_enter_def numeral_eq_Suc)
qed

lemma Resume_while_Suspending_examples:
  "Resume False True (suspending0\<lparr>m_resetProfilers := True\<rparr>)
     = (Resume_WaitSuspendEvent, suspending0\<lparr>m_resetProfilers := True\<rparr>)
   \<and> Resume False True suspending0 = (Caller_Ready, running0)"
proof
  have a: "m_ExecMode (suspending0\<lparr>m_resetProfilers := True\<rparr>) = ExecMode_Suspending"
    by (simp add: suspending0_def)
  have b: "m_resetProfilers (suspending0\<lparr>m_resetProfilers := True\<rparr>)"
    "m_SuspendEvent (suspending0\<lparr>m_resetProfilers := True\<rparr>) = 0"
    by (simp_all add: suspending0_def CoreEmuThread_new_def)
  from Resume_while_Suspending_branches [OF a] b
  show "Resume False True (suspending0\<lparr>m_resetProfilers := True\<rparr>)
     = (Resume_WaitSuspendEvent, suspending0\<lparr>m_resetProfilers := True\<rparr>)"
    by blast
next
  have a: "m_ExecMode suspending0 = ExecMode_Suspending"
    by (simp add: suspending0_def)
  have b: "\<not> m_resetRecompilers suspending0 \<and> \<not> m_resetProfilers suspending0"
    by (simp add: suspending0_def CoreEmuThread_new_def)
  have c: "suspending0\<lparr>m_ExecMode := ExecMode_Running\<rparr> = running0"
    by (simp add: suspending0_def running0_def)
  from Resume_while_Suspending_branches [OF a] b
  have "Resume False True suspending0 = (Caller_Ready, suspending0\<lparr>m_ExecMode := ExecMode_Running\<rparr>)"
    by blast
  with c show "Resume False True suspending0 = (Caller_Ready, running0)"
    by simp
qed

text \<open>
  C4, at an input where the code and the claim part. In the state \<open>stale0\<close>, which
  the run \<open>run_stale_signal\<close> reaches from the new controller, the mode is
  \<^verbatim>\<open>ExecMode_Suspending\<close>, a profiler reset is pending and \<^verbatim>\<open>m_SuspendEvent\<close>
  holds the signal of the earlier suspension; the execution thread is in the loop of
  line 157 of that earlier suspension and has not seen the new request. A
  \<^verbatim>\<open>Resume\<close> from another thread goes to the wait of line 208, takes the old signal
  and does not block: it reaches the \<^verbatim>\<open>DevAssert\<close> of line 218 while the mode is
  still \<^verbatim>\<open>ExecMode_Suspending\<close>, and the assertion fails.
\<close>

theorem Resume_takes_stale_signal:
  "core (last (trace (sys_new cfg0) run_stale_signal)) = stale0
   \<and> exec (last (trace (sys_new cfg0) run_stale_signal)) = Exec_SuspendedTest
   \<and> Resume False True stale0 = (Caller_AssertionFailure, stale0\<lparr>m_SuspendEvent := 0\<rparr>)
   \<and> m_ExecMode (stale0\<lparr>m_SuspendEvent := 0\<rparr>) = ExecMode_Suspending
   \<and> callers (last (trace (sys_new cfg0) run_stale_resume)) 2 = Caller_AssertionFailure
   \<and> core (last (trace (sys_new cfg0) run_stale_resume)) = stale0\<lparr>m_SuspendEvent := 0\<rparr>
   \<and> exec (last (trace (sys_new cfg0) run_stale_resume)) = Exec_SuspendedTest"
proof (intro conjI)
  show "core (last (trace (sys_new cfg0) run_stale_signal)) = stale0"
    by (simp add: run_stale_signal_def stale0_def run_defs cfg_profiler_def)
  show "exec (last (trace (sys_new cfg0) run_stale_signal)) = Exec_SuspendedTest"
    by (simp add: run_stale_signal_def run_defs cfg_profiler_def)
  show "Resume False True stale0 = (Caller_AssertionFailure, stale0\<lparr>m_SuspendEvent := 0\<rparr>)"
    by (simp add: Resume_def Resume_enter_def stale0_def numeral_eq_Suc Wait_SuspendEvent_def
        DevAssert_throws_def)
  show "m_ExecMode (stale0\<lparr>m_SuspendEvent := 0\<rparr>) = ExecMode_Suspending"
    by (simp add: stale0_def)
  show "callers (last (trace (sys_new cfg0) run_stale_resume)) 2 = Caller_AssertionFailure"
    by (simp add: run_stale_resume_def run_stale_signal_def run_defs cfg_profiler_def)
  show "core (last (trace (sys_new cfg0) run_stale_resume)) = stale0\<lparr>m_SuspendEvent := 0\<rparr>"
    by (simp add: run_stale_resume_def run_stale_signal_def stale0_def run_defs
        cfg_profiler_def)
  show "exec (last (trace (sys_new cfg0) run_stale_resume)) = Exec_SuspendedTest"
    by (simp add: run_stale_resume_def run_stale_signal_def run_defs cfg_profiler_def)
qed

text \<open>
  C5. \<^verbatim>\<open>Resume\<close> from another thread while the mode is \<^verbatim>\<open>ExecMode_Running\<close>
  returns and leaves every field as it was: the mode, both event signals, both reset
  flags, the configuration and the execution cache.
\<close>

theorem Resume_while_Running:
  "m_ExecMode s = ExecMode_Running \<Longrightarrow> Resume False isRunning s = (Caller_Ready, s)"
  by (simp add: Resume_def Resume_enter_def numeral_eq_Suc)

theorem Resume_while_Running_witness:
  "m_ExecMode running0 = ExecMode_Running
   \<and> Resume False True running0 = (Caller_Ready, running0)"
proof -
  have h: "m_ExecMode running0 = ExecMode_Running"
    by (simp add: running0_def)
  show ?thesis using h Resume_while_Running [OF h, of True] by simp
qed

subsection \<open>ApplySettings\<close>

lemma ApplySettings_replaces: "EmuConfig (ApplySettings src s) = src"
  by (simp add: ApplySettings_def)

text \<open>
  C6. When the new configuration agrees with the active one on the CPU, game-fix and
  speed-hack groups and differs on the profiler group, \<^verbatim>\<open>ApplySettings\<close> leaves
  \<^verbatim>\<open>m_resetProfilers\<close> set and \<^verbatim>\<open>m_resetRecompilers\<close> clear, and the new
  configuration is the active one. The next \<^verbatim>\<open>Resume\<close> from another thread that
  reaches lines 218-229 with the mode \<^verbatim>\<open>ExecMode_Suspended\<close> or \<^verbatim>\<open>ExecMode_Idle\<close>,
  directly or after its wait on \<^verbatim>\<open>m_SuspendEvent\<close>, clears the execution cache once,
  clears both flags, sets \<^verbatim>\<open>ExecMode_Running\<close> and posts \<^verbatim>\<open>m_ResumeEvent\<close>.
\<close>

theorem ApplySettings_profiler_then_Resume:
  assumes "Cpu src = Cpu (EmuConfig s)" "Gamefixes src = Gamefixes (EmuConfig s)"
    "Speedhacks src = Speedhacks (EmuConfig s)" "Profiler src \<noteq> Profiler (EmuConfig s)"
  shows "m_resetProfilers (ApplySettings src s) \<and> \<not> m_resetRecompilers (ApplySettings src s)
     \<and> EmuConfig (ApplySettings src s) = src
     \<and> (m_ExecMode s = ExecMode_Suspended \<or> m_ExecMode s = ExecMode_Idle \<longrightarrow>
          Resume False True (ApplySettings src s) =
            (Caller_Ready,
             s\<lparr>m_ExecMode := ExecMode_Running, m_ResumeEvent := m_ResumeEvent s + 1,
               m_resetRecompilers := False, m_resetProfilers := False,
               EmuConfig := src, execCacheClears := execCacheClears s + 1\<rparr>))
     \<and> (m_ExecMode s = ExecMode_Suspended \<and> m_SuspendEvent s \<noteq> 0 \<longrightarrow>
          caller_run 5 (Resume_WaitSuspendEvent, ApplySettings src s) =
            (Caller_Ready,
             s\<lparr>m_ExecMode := ExecMode_Running, m_ResumeEvent := m_ResumeEvent s + 1,
               m_SuspendEvent := m_SuspendEvent s - 1,
               m_resetRecompilers := False, m_resetProfilers := False,
               EmuConfig := src, execCacheClears := execCacheClears s + 1\<rparr>))"
  using assms
  by (auto simp: ApplySettings_def Resume_def Resume_enter_def numeral_eq_Suc
      Resume_resets_def SysClearExecutionCache_def Post_ResumeEvent_def
      Wait_SuspendEvent_def DevAssert_throws_def)

theorem ApplySettings_profiler_then_Resume_witness:
  "ApplySettings cfg_profiler suspended0 =
     suspended0\<lparr>m_resetProfilers := True, EmuConfig := cfg_profiler\<rparr>
   \<and> Resume False True (ApplySettings cfg_profiler suspended0) =
       (Caller_Ready,
        suspended0\<lparr>m_ExecMode := ExecMode_Running, m_ResumeEvent := 1,
                    EmuConfig := cfg_profiler, execCacheClears := 1\<rparr>)"
proof
  show "ApplySettings cfg_profiler suspended0 =
     suspended0\<lparr>m_resetProfilers := True, EmuConfig := cfg_profiler\<rparr>"
    by (simp add: ApplySettings_def suspended0_def CoreEmuThread_new_def cfg0_def
        cfg_profiler_def)
next
  have h: "Cpu cfg_profiler = Cpu (EmuConfig suspended0)"
    "Gamefixes cfg_profiler = Gamefixes (EmuConfig suspended0)"
    "Speedhacks cfg_profiler = Speedhacks (EmuConfig suspended0)"
    "Profiler cfg_profiler \<noteq> Profiler (EmuConfig suspended0)"
    by (simp_all add: suspended0_def CoreEmuThread_new_def cfg0_def cfg_profiler_def)
  have m: "m_ExecMode suspended0 = ExecMode_Suspended"
    by (simp add: suspended0_def)
  from ApplySettings_profiler_then_Resume [OF h] m
  have "Resume False True (ApplySettings cfg_profiler suspended0) =
     (Caller_Ready,
      suspended0\<lparr>m_ExecMode := ExecMode_Running,
        m_ResumeEvent := m_ResumeEvent suspended0 + 1,
        m_resetRecompilers := False, m_resetProfilers := False,
        EmuConfig := cfg_profiler, execCacheClears := execCacheClears suspended0 + 1\<rparr>)"
    by blast
  then show "Resume False True (ApplySettings cfg_profiler suspended0) =
       (Caller_Ready,
        suspended0\<lparr>m_ExecMode := ExecMode_Running, m_ResumeEvent := 1,
                    EmuConfig := cfg_profiler, execCacheClears := 1\<rparr>)"
    by (simp add: suspended0_def CoreEmuThread_new_def)
qed

section \<open>Properties of the recovery store\<close>

subsection \<open>Bytes\<close>

lemma bytes_u32_bytes: "bytes_u32 (u32_bytes w @ rest) = w"
proof -
  have "ucast (ucast w :: u8) OR push_bit 8 (ucast (ucast (drop_bit 8 w) :: u8))
        OR push_bit 16 (ucast (ucast (drop_bit 16 w) :: u8))
        OR push_bit 24 (ucast (ucast (drop_bit 24 w) :: u8)) = w"
  proof (rule bit_word_eqI)
    fix n :: nat
    assume "n < LENGTH(32)"
    then have n: "n < 32" by simp
    consider "n < 8" | "8 \<le> n" "n < 16" | "16 \<le> n" "n < 24" | "24 \<le> n"
      by linarith
    then show "bit (ucast (ucast w :: u8) OR push_bit 8 (ucast (ucast (drop_bit 8 w) :: u8))
        OR push_bit 16 (ucast (ucast (drop_bit 16 w) :: u8))
        OR push_bit 24 (ucast (ucast (drop_bit 24 w) :: u8)) :: u32) n = bit w n"
      using n by cases (auto simp: bit_simps)
  qed
  then show ?thesis by (simp add: u32_bytes_def)
qed

lemma length_u32_bytes [simp]: "length (u32_bytes w) = 4"
  by (simp add: u32_bytes_def)

lemma unat_len: "n < 2 ^ 32 \<Longrightarrow> unat (of_nat n :: u32) = n"
  by (simp add: unat_of_nat)

lemma unat_len_plus:
  "n + k < 2 ^ 32 \<Longrightarrow> unat ((of_nat n :: u32) + of_nat k) = n + k"
  by (metis of_nat_add unat_len)

lemma read_u32_at: "read_u32 (pre @ u32_bytes w @ rest) (length pre) = Inr w"
  by (simp add: read_u32_def bytes_u32_bytes)

lemma read_bytes_at: "read_bytes (pre @ bs @ rest) (length pre) (length bs) = Inr bs"
  by (simp add: read_bytes_def)

lemma mem_write_end: "mem_write m (length m) bs = m @ bs"
  by (simp add: mem_write_def)

lemma drop_mem_write: "drop i (mem_write m i bs) = bs @ drop (i + length bs) m"
  by (simp add: mem_write_def)

lemma length_mem_write: "length (mem_write m i bs) = max (length m) (i + length bs)"
  by (auto simp: mem_write_def)

lemma FreezeMem_end:
  "m_idx st = length (m_memory st) \<Longrightarrow>
     FreezeMem bs st = \<lparr>m_memory = m_memory st @ bs, m_idx = length (m_memory st) + length bs\<rparr>"
  by (simp add: FreezeMem_def mem_write_end)

subsection \<open>The partial buffer: writer and readers\<close>

text \<open>
  \<^verbatim>\<open>JustGsSavingState::gsFreeze\<close>, wherever the cursor stands: from the old cursor on,
  the buffer holds the payload's length as a \<^verbatim>\<open>u32\<close>, then the payload, then what was
  there before; the cursor ends behind the payload.
\<close>

lemma JustGsSavingState_gsFreeze_frame:
  "drop (m_idx st) (m_memory (JustGsSavingState_gsFreeze gs st)) =
     u32_bytes (of_nat (length gs)) @ gs @ drop (m_idx st + 4 + length gs) (m_memory st)
   \<and> m_idx (JustGsSavingState_gsFreeze gs st) = m_idx st + 4 + length gs"
proof -
  define i where "i = m_idx st"
  define m2 where "m2 = mem_write (m_memory st) (i + 4) gs"
  have d2: "drop (i + 4) m2 = gs @ drop (i + 4 + length gs) (m_memory st)"
    by (simp add: m2_def drop_mem_write)
  have "drop i (mem_write m2 i (u32_bytes (of_nat (length gs)))) =
        u32_bytes (of_nat (length gs)) @ drop (i + 4) m2"
    by (simp add: drop_mem_write)
  with d2 show ?thesis
    by (simp add: JustGsSavingState_gsFreeze_def memSavingState_gsFreeze_def FreezeMem_def
        Let_def i_def m2_def)
qed

lemma JustGsSavingState_gsFreeze_end:
  assumes "m_idx st = length (m_memory st)"
  shows "JustGsSavingState_gsFreeze gs st =
     \<lparr>m_memory = m_memory st @ u32_bytes (of_nat (length gs)) @ gs,
      m_idx = length (m_memory st) + 4 + length gs\<rparr>"
  using assms
  by (simp add: JustGsSavingState_gsFreeze_def memSavingState_gsFreeze_def FreezeMem_def
      mem_write_def Let_def)

lemma MakeGsOnly_buffer:
  "EmulationInProgress r \<Longrightarrow>
     g_gsRecoveryState (MakeGsOnly plugin gs r) = Some (partial_buffer plugin gs)"
  by (simp add: MakeGsOnly_def Clear_def Let_def memSavingState_FreezePlugin_def
      FreezeMem_end JustGsSavingState_gsFreeze_end partial_buffer_def)

text \<open>
  The length prefix of the second block is the payload's size, and the in-memory
  recovery-aware writer copies exactly the payload: what it appends is what a live
  \<^verbatim>\<open>gsFreeze\<close> of the same bytes appends.
\<close>

lemma partial_buffer_prefix:
  assumes "length plugin + 4 < 2 ^ 32" "length gs < 2 ^ 32"
  shows "read_u32 (partial_buffer plugin gs) (length plugin + 4) = Inr (of_nat (length gs))
       \<and> unat (of_nat (length gs) :: u32) = length gs"
  using read_u32_at [of "u32_bytes (of_nat (length plugin)) @ plugin" "of_nat (length gs)" gs]
    unat_len [OF assms(2)]
  by (simp add: partial_buffer_def add.commute)

lemma RecoveryMemSavingState_gsFreeze_partial:
  assumes "length plugin + 8 < 2 ^ 32" "length gs < 2 ^ 32"
  shows "RecoveryMemSavingState_gsFreeze (Some (partial_buffer plugin gs)) live st
           = Inr (memSavingState_gsFreeze gs st)"
proof -
  let ?buf = "partial_buffer plugin gs"
  let ?pl = "of_nat (length plugin) :: u32"
  have p4: "unat (?pl + 4) = length plugin + 4"
    using assms(1) unat_len_plus [of "length plugin" 4] by simp
  have p8: "unat (?pl + 8) = length plugin + 8"
    using assms(1) unat_len_plus [of "length plugin" 8] by simp
  have g: "unat (of_nat (length gs) :: u32) = length gs"
    using assms(2) by (rule unat_len)
  have r0: "read_u32 ?buf 0 = Inr ?pl"
    using read_u32_at [of "[]"] by (simp add: partial_buffer_def)
  have r1: "read_u32 ?buf (length plugin + 4) = Inr (of_nat (length gs))"
    using read_u32_at [of "u32_bytes ?pl @ plugin" "of_nat (length gs)" gs]
    by (simp add: partial_buffer_def add.commute)
  have r2: "read_bytes ?buf (length plugin + 8) (length gs) = Inr gs"
    using read_bytes_at [of "u32_bytes ?pl @ plugin @ u32_bytes (of_nat (length gs))" gs "[]"]
    by (simp add: partial_buffer_def add.commute)
  show ?thesis
    by (simp add: RecoveryMemSavingState_gsFreeze_def r0 r1 r2 p4 p8 g
        memSavingState_gsFreeze_def)
qed

lemma FreezeMem_append:
  "FreezeMem (as @ bs) st = FreezeMem bs (FreezeMem as st)"
proof -
  let ?m = "m_memory st" and ?i = "m_idx st"
  have "mem_write (mem_write ?m ?i as) (?i + length as) bs = mem_write ?m ?i (as @ bs)"
    by (auto simp: mem_write_def min_def ac_simps)
  then show ?thesis
    by (simp add: FreezeMem_def ac_simps)
qed

lemma RecoveryMemSavingState_FreezePlugin_partial:
  assumes "length plugin + 4 < 2 ^ 32"
  shows "RecoveryMemSavingState_FreezePlugin True (Some (partial_buffer plugin gs)) live st
           = Inr (memSavingState_FreezePlugin plugin st)"
proof -
  let ?buf = "partial_buffer plugin gs"
  let ?pl = "of_nat (length plugin) :: u32"
  have p4: "unat (?pl + 4) = length plugin + 4"
    using assms unat_len_plus [of "length plugin" 4] by simp
  have r0: "read_u32 ?buf 0 = Inr ?pl"
    using read_u32_at [of "[]"] by (simp add: partial_buffer_def)
  have rb: "read_bytes ?buf 0 (length plugin + 4) = Inr (u32_bytes ?pl @ plugin)"
    using read_bytes_at [of "[]" "u32_bytes ?pl @ plugin"]
    by (simp add: partial_buffer_def add.commute)
  show ?thesis
    by (simp add: RecoveryMemSavingState_FreezePlugin_def r0 rb p4
        memSavingState_FreezePlugin_def FreezeMem_append)
qed

text \<open>
  The zipped recovery-aware writer starts four bytes earlier: it hands \<^verbatim>\<open>gzwrite\<close>
  the length prefix and the payload without its last four bytes.
\<close>

lemma RecoveryZipSavingState_gsFreeze_partial:
  assumes "length plugin + 8 < 2 ^ 32" "length gs < 2 ^ 32" "4 \<le> length gs"
  shows "RecoveryZipSavingState_gsFreeze (Some (partial_buffer plugin gs)) live
           = Inr (u32_bytes (of_nat (length gs)) @ take (length gs - 4) gs)"
proof -
  let ?buf = "partial_buffer plugin gs"
  let ?pl = "of_nat (length plugin) :: u32"
  have p4: "unat (?pl + 4) = length plugin + 4"
    using assms(1) unat_len_plus [of "length plugin" 4] by simp
  have g: "unat (of_nat (length gs) :: u32) = length gs"
    using assms(2) by (rule unat_len)
  have r0: "read_u32 ?buf 0 = Inr ?pl"
    using read_u32_at [of "[]"] by (simp add: partial_buffer_def)
  have r1: "read_u32 ?buf (length plugin + 4) = Inr (of_nat (length gs))"
    using read_u32_at [of "u32_bytes ?pl @ plugin" "of_nat (length gs)" gs]
    by (simp add: partial_buffer_def add.commute)
  have r2: "read_bytes ?buf (length plugin + 4) (length gs)
        = Inr (u32_bytes (of_nat (length gs)) @ take (length gs - 4) gs)"
    using assms(3) by (simp add: read_bytes_def partial_buffer_def)
  show ?thesis
    by (simp add: RecoveryZipSavingState_gsFreeze_def r0 r1 r2 p4 g)
qed

text \<open>
  \<^verbatim>\<open>Recover\<close> with the partial buffer only hands the plugin its record and the second
  pass exactly the payload.
\<close>

lemma Recover_thaw_partial:
  assumes "g_RecoveryState r = None" "g_gsRecoveryState r = Some (partial_buffer plugin gs)"
    "length plugin < 2 ^ 32"
  shows "Recover_thaw thaw_ok r =
     Inr (emit [Eff_ConsoleStatus ''Resuming execution from gsState...'',
                Eff_ThawPlugin ''GS'' plugin, Eff_ThawGs gs] r)"
proof -
  let ?buf = "partial_buffer plugin gs"
  let ?pl = "of_nat (length plugin) :: u32"
  have p: "unat ?pl = length plugin"
    using assms(3) by (rule unat_len)
  have r0: "read_u32 ?buf 0 = Inr ?pl"
    using read_u32_at [of "[]"] by (simp add: partial_buffer_def)
  have rb: "read_bytes ?buf 4 (length plugin) = Inr plugin"
    using read_bytes_at [of "u32_bytes ?pl" plugin] by (simp add: partial_buffer_def)
  have r1: "read_u32 ?buf (4 + length plugin) = Inr (of_nat (length gs))"
    using read_u32_at [of "u32_bytes ?pl @ plugin" "of_nat (length gs)" gs]
    by (simp add: partial_buffer_def)
  have d: "drop (8 + length plugin) ?buf = gs"
    by (simp add: partial_buffer_def)
  have fp: "memLoadingState_FreezePlugin \<lparr>m_memory = ?buf, m_idx = 0\<rparr>
      = Inr (plugin, \<lparr>m_memory = ?buf, m_idx = 4 + length plugin\<rparr>)"
    by (simp add: memLoadingState_FreezePlugin_def r0 rb p)
  have fz: "memLoadingState_Freeze \<lparr>m_memory = ?buf, m_idx = 4 + length plugin\<rparr>
      = Inr (of_nat (length gs), \<lparr>m_memory = ?buf, m_idx = 8 + length plugin\<rparr>)"
    by (simp add: memLoadingState_Freeze_def r1)
  show ?thesis using assms(1,2)
    by (simp add: Recover_thaw_def fp fz d perform_def thaw_ok_def emit_def Let_def)
qed

text \<open>
  C9, at an input where the code and the claim part. \<^verbatim>\<open>MakeGsOnly\<close> with the plugin
  record \<open>[AA]\<close> and the eight payload bytes \<open>1 .. 8\<close> leaves the buffer
  \<open>[1,0,0,0, AA, 8,0,0,0, 1,..,8]\<close>: the prefix of the second block is the payload's
  size. \<^verbatim>\<open>RecoveryMemSavingState::gsFreeze\<close> copies the eight payload bytes.
  \<^verbatim>\<open>RecoveryZipSavingState::gsFreeze\<close> writes \<open>[8,0,0,0, 1,2,3,4]\<close>: the length
  prefix and half of the payload.
\<close>

theorem RecoveryZipSavingState_gsFreeze_offset:
  "g_gsRecoveryState (MakeGsOnly [0xAA] [1, 2, 3, 4, 5, 6, 7, 8] session0)
     = Some [1, 0, 0, 0, 0xAA, 8, 0, 0, 0, 1, 2, 3, 4, 5, 6, 7, 8]
   \<and> RecoveryMemSavingState_gsFreeze
       (Some [1, 0, 0, 0, 0xAA, 8, 0, 0, 0, 1, 2, 3, 4, 5, 6, 7, 8]) []
       \<lparr>m_memory = [], m_idx = 0\<rparr>
     = Inr \<lparr>m_memory = [1, 2, 3, 4, 5, 6, 7, 8], m_idx = 8\<rparr>
   \<and> RecoveryZipSavingState_gsFreeze
       (Some [1, 0, 0, 0, 0xAA, 8, 0, 0, 0, 1, 2, 3, 4, 5, 6, 7, 8]) []
     = Inr [8, 0, 0, 0, 1, 2, 3, 4]"
proof (intro conjI)
  show "g_gsRecoveryState (MakeGsOnly [0xAA] [1, 2, 3, 4, 5, 6, 7, 8] session0)
     = Some [1, 0, 0, 0, 0xAA, 8, 0, 0, 0, 1, 2, 3, 4, 5, 6, 7, 8]"
    by (simp add: MakeGsOnly_buffer session0_def partial_buffer_def u32_bytes_def)
  show "RecoveryMemSavingState_gsFreeze
       (Some [1, 0, 0, 0, 0xAA, 8, 0, 0, 0, 1, 2, 3, 4, 5, 6, 7, 8]) []
       \<lparr>m_memory = [], m_idx = 0\<rparr>
     = Inr \<lparr>m_memory = [1, 2, 3, 4, 5, 6, 7, 8], m_idx = 8\<rparr>"
    by (simp add: RecoveryMemSavingState_gsFreeze_def read_u32_def read_bytes_def
        FreezeMem_def mem_write_def)
  show "RecoveryZipSavingState_gsFreeze
       (Some [1, 0, 0, 0, 0xAA, 8, 0, 0, 0, 1, 2, 3, 4, 5, 6, 7, 8]) []
     = Inr [8, 0, 0, 0, 1, 2, 3, 4]"
    by (simp add: RecoveryZipSavingState_gsFreeze_def read_u32_def read_bytes_def)
qed

subsection \<open>MakeFull\<close>

lemma MakeFull_noop:
  "g_RecoveryState r \<noteq> None \<or> \<not> EmulationInProgress r \<Longrightarrow> MakeFull FreezeAll r = Inr r"
  by (auto simp: MakeFull_def)

lemma MakeFull_success:
  assumes "g_RecoveryState r = None" "EmulationInProgress r"
    "FreezeAll (g_gsRecoveryState r) = Inr bytes"
  shows "MakeFull FreezeAll r =
           Inr (r\<lparr>g_RecoveryState := Some bytes, g_gsRecoveryState := None,
                  journal := journal r @ [Eff_SysSuspend]\<rparr>)"
  using assms
  by (cases r) (simp add: MakeFull_def RecoveryMemSavingState_FreezeAll_def emit_def)

lemma MakeFull_caught:
  assumes "g_RecoveryState r = None" "EmulationInProgress r"
    "FreezeAll (g_gsRecoveryState r) = Inl (RuntimeError msg)"
  shows "MakeFull FreezeAll r =
           Inr (r\<lparr>journal := journal r @ [Eff_SysSuspend, Eff_MsgboxAlert msg]\<rparr>)"
  using assms
  by (cases r) (simp add: MakeFull_def RecoveryMemSavingState_FreezeAll_def emit_def)

lemma MakeFull_propagates:
  assumes "g_RecoveryState r = None" "EmulationInProgress r"
    "FreezeAll (g_gsRecoveryState r) = Inl ex" "\<forall>msg. ex \<noteq> RuntimeError msg"
  shows "MakeFull FreezeAll r = Inl ex"
  using assms
  by (cases ex) (simp_all add: MakeFull_def RecoveryMemSavingState_FreezeAll_def emit_def)

lemma MakeFull_journal:
  assumes "g_RecoveryState r = None" "EmulationInProgress r" "MakeFull FreezeAll r = Inr r'"
  shows "occurrences Eff_SysSuspend r' = occurrences Eff_SysSuspend r + 1
       \<and> occurrences Eff_SysResume r' = occurrences Eff_SysResume r"
proof (cases "FreezeAll (g_gsRecoveryState r)")
  case (Inr bytes)
  from MakeFull_success [of r FreezeAll bytes, OF assms(1,2) Inr] assms(3) show ?thesis
    by (auto simp: occurrences_def)
next
  case (Inl ex)
  show ?thesis
  proof (cases "\<exists>msg. ex = RuntimeError msg")
    case True
    then obtain msg where "ex = RuntimeError msg" by blast
    with Inl have "FreezeAll (g_gsRecoveryState r) = Inl (RuntimeError msg)" by simp
    from MakeFull_caught [of r FreezeAll msg, OF assms(1,2) this] assms(3) show ?thesis
      by (auto simp: occurrences_def)
  next
    case False
    then have "\<forall>msg. ex \<noteq> RuntimeError msg" by blast
    from MakeFull_propagates [of r FreezeAll ex, OF assms(1,2) Inl this] assms(3)
    show ?thesis by simp
  qed
qed

text \<open>
  C3, as amended. \<^verbatim>\<open>MakeFull\<close> changes nothing when a full buffer exists or no session
  is active. In every other case it calls \<^verbatim>\<open>SysSuspend\<close>; when the freeze pass
  returns, the store holds the pass's bytes as the new full buffer and no partial buffer;
  and whenever \<^verbatim>\<open>MakeFull\<close> returns, it has called \<^verbatim>\<open>SysSuspend\<close> once and
  \<^verbatim>\<open>SysResume\<close> not at all: it returns with the emulation suspended.
\<close>

theorem MakeFull_returns_suspended:
  "(g_RecoveryState r \<noteq> None \<or> \<not> EmulationInProgress r \<longrightarrow> MakeFull FreezeAll r = Inr r)
   \<and> (g_RecoveryState r = None \<and> EmulationInProgress r \<longrightarrow>
        (\<forall>bytes. FreezeAll (g_gsRecoveryState r) = Inr bytes \<longrightarrow>
           MakeFull FreezeAll r =
             Inr (r\<lparr>g_RecoveryState := Some bytes, g_gsRecoveryState := None,
                    journal := journal r @ [Eff_SysSuspend]\<rparr>))
        \<and> (\<forall>r'. MakeFull FreezeAll r = Inr r' \<longrightarrow>
              occurrences Eff_SysSuspend r' = occurrences Eff_SysSuspend r + 1
              \<and> occurrences Eff_SysResume r' = occurrences Eff_SysResume r))"
  using MakeFull_noop [of r FreezeAll] MakeFull_success [of r FreezeAll]
    MakeFull_journal [of r FreezeAll]
  by blast

theorem MakeFull_returns_suspended_witness:
  "MakeFull (FreezeAll_gives [1, 2, 3]) session_gs =
     Inr (session_gs\<lparr>g_RecoveryState := Some [1, 2, 3], g_gsRecoveryState := None,
                    journal := journal session_gs @ [Eff_SysSuspend]\<rparr>)
   \<and> MakeFull (FreezeAll_gives [1, 2, 3]) session_both = Inr session_both"
proof
  have a: "g_RecoveryState session_gs = None \<and> EmulationInProgress session_gs"
    by (simp add: session_gs_def session0_def)
  have b: "FreezeAll_gives [1, 2, 3] (g_gsRecoveryState session_gs) = Inr [1, 2, 3]"
    by (simp add: FreezeAll_gives_def)
  from MakeFull_returns_suspended [of session_gs "FreezeAll_gives [1, 2, 3]"] a b
  show "MakeFull (FreezeAll_gives [1, 2, 3]) session_gs =
     Inr (session_gs\<lparr>g_RecoveryState := Some [1, 2, 3], g_gsRecoveryState := None,
                    journal := journal session_gs @ [Eff_SysSuspend]\<rparr>)"
    by blast
next
  have c: "g_RecoveryState session_both \<noteq> None"
    by (simp add: session_both_def)
  from MakeFull_returns_suspended [of session_both "FreezeAll_gives [1, 2, 3]"] c
  show "MakeFull (FreezeAll_gives [1, 2, 3]) session_both = Inr session_both"
    by blast
qed

text \<open>
  C3 as stated fails: with a session active, no buffer and a freeze pass that returns,
  the journal of \<^verbatim>\<open>MakeFull\<close> is the one call of \<^verbatim>\<open>SysSuspend\<close>. The emulation
  thread is not resumed.
\<close>

theorem MakeFull_no_resume_counterexample:
  "MakeFull (FreezeAll_gives [1, 2, 3]) session0 =
     Inr \<lparr>g_RecoveryState = Some [1, 2, 3], g_gsRecoveryState = None,
          EmulationInProgress = True, journal = [Eff_SysSuspend]\<rparr>"
  by (simp add: MakeFull_def RecoveryMemSavingState_FreezeAll_def emit_def session0_def
      FreezeAll_gives_def)

text \<open>
  C8. When the freeze pass inside \<^verbatim>\<open>MakeFull\<close> throws a \<^verbatim>\<open>RuntimeError\<close>, the call
  returns normally; afterwards there is no full buffer, the alert with the error's
  message is in the journal behind the \<^verbatim>\<open>SysSuspend\<close>, and nothing else has changed:
  the session is still in progress and the partial buffer is as it was.
\<close>

theorem MakeFull_serialization_failure:
  assumes "g_RecoveryState r = None" "EmulationInProgress r"
    "FreezeAll (g_gsRecoveryState r) = Inl (RuntimeError msg)"
  shows "MakeFull FreezeAll r =
           Inr (r\<lparr>journal := journal r @ [Eff_SysSuspend, Eff_MsgboxAlert msg]\<rparr>)
       \<and> g_RecoveryState (r\<lparr>journal := journal r @ [Eff_SysSuspend, Eff_MsgboxAlert msg]\<rparr>)
           = None
       \<and> EmulationInProgress
           (r\<lparr>journal := journal r @ [Eff_SysSuspend, Eff_MsgboxAlert msg]\<rparr>)"
  using assms MakeFull_caught [of r FreezeAll msg] by simp

theorem MakeFull_serialization_failure_witness:
  "MakeFull (FreezeAll_throws (RuntimeError ''out of memory'')) session_gs =
     Inr \<lparr>g_RecoveryState = None, g_gsRecoveryState = Some [0, 0, 0, 0, 0, 0, 0, 0],
          EmulationInProgress = True,
          journal = [Eff_SysSuspend, Eff_MsgboxAlert ''out of memory'']\<rparr>"
proof -
  have h: "g_RecoveryState session_gs = None" "EmulationInProgress session_gs"
    "FreezeAll_throws (RuntimeError ''out of memory'') (g_gsRecoveryState session_gs)
       = Inl (RuntimeError ''out of memory'')"
    by (simp_all add: session_gs_def session0_def FreezeAll_throws_def)
  show ?thesis
    using MakeFull_serialization_failure
      [of session_gs "FreezeAll_throws (RuntimeError ''out of memory'')" "''out of memory''",
       OF h]
    by (simp add: session_gs_def session0_def)
qed

subsection \<open>SaveToFile\<close>

text \<open>
  With a full buffer the file receives the four bytes of the format version and then
  the buffer, between \<^verbatim>\<open>gzopen\<close> and \<^verbatim>\<open>gzclose\<close>, after \<^verbatim>\<open>SysSuspend\<close> and
  \<^verbatim>\<open>SysResume\<close>.
\<close>

lemma SaveToFile_with_buffer:
  "g_RecoveryState r = Some buf \<Longrightarrow>
     SaveToFile FreezeAll ZipFreezeAll True g_SaveVersion file r =
       Inr (emit [Eff_SysSuspend, Eff_SysResume, Eff_gzopen file,
                  Eff_gzwrite (u32_bytes g_SaveVersion), Eff_gzwrite buf, Eff_gzclose] r)"
  by (simp add: SaveToFile_def emit_def)

text \<open>
  C7, at the input where the code and the claim part: a session is active and there is
  no full buffer. Line 120 constructs a \<^verbatim>\<open>RecoveryMemSavingState\<close>, whose constructor
  (line 204) binds \<^verbatim>\<open>*g_RecoveryState\<close> while the pointer is null; \<^verbatim>\<open>MakeFull\<close>
  allocates the buffer first (line 180), \<^verbatim>\<open>SaveToFile\<close> does not. No buffer is produced
  and no file is written. Without a session the same statement runs, ahead of the test
  of line 137.
\<close>

theorem SaveToFile_without_buffer:
  "SaveToFile (FreezeAll_gives [1, 2, 3]) (FreezeAll_gives [1, 2, 3]) True 7 ''slot0.state''
     session0 = Inl NullDereference
   \<and> SaveToFile (FreezeAll_gives [1, 2, 3]) (FreezeAll_gives [1, 2, 3]) True 7 ''slot0.state''
       (session0\<lparr>EmulationInProgress := False\<rparr>) = Inl NullDereference"
  by (simp add: SaveToFile_def RecoveryMemSavingState_FreezeAll_def emit_def session0_def)

subsection \<open>Recover\<close>

lemma Recover_thaw_keeps:
  "Recover_thaw thaw r = Inr r1 \<Longrightarrow>
     occurrences Eff_SysClearExecutionCache r1 = occurrences Eff_SysClearExecutionCache r"
  by (auto simp: Recover_thaw_def perform_def emit_def occurrences_def Let_def
      split: option.splits sum.splits prod.splits)

text \<open>
  C10. Whenever \<^verbatim>\<open>Recover\<close> returns, \<^verbatim>\<open>HasState\<close> is false afterwards and the
  execution cache has been cleared exactly once more, whatever buffers there were. With
  neither buffer, on the execution thread, it returns having done nothing but clear the
  cache (and report the game CRC to the plugin); with a full buffer whose thaw returns,
  and with only a partial buffer as \<^verbatim>\<open>MakeGsOnly\<close> writes it, it returns too.
\<close>

theorem Recover_clears_store:
  "(\<forall>r'. Recover haveEmuThread isSelf hasGSsetGameCRC thaw r = Inr r' \<longrightarrow>
        \<not> HasState r'
        \<and> occurrences Eff_SysClearExecutionCache r' = occurrences Eff_SysClearExecutionCache r + 1)
   \<and> (g_RecoveryState r = None \<and> g_gsRecoveryState r = None \<longrightarrow>
        Recover True True hasGSsetGameCRC thaw r =
          Inr (emit (Eff_SysClearExecutionCache #
                      (if hasGSsetGameCRC then [Eff_GSsetGameCRC] else [])) r))
   \<and> (\<forall>buf. g_RecoveryState r = Some buf \<and> thaw (Eff_ThawAll buf) = None \<longrightarrow>
        (\<exists>r'. Recover True True hasGSsetGameCRC thaw r = Inr r'))
   \<and> (\<forall>plugin gs. g_RecoveryState r = None
          \<and> g_gsRecoveryState r = Some (partial_buffer plugin gs)
          \<and> length plugin < 2 ^ 32 \<longrightarrow>
        (\<exists>r'. Recover True True hasGSsetGameCRC thaw_ok r = Inr r'))"
proof (intro conjI allI impI)
  fix r'
  assume a: "Recover haveEmuThread isSelf hasGSsetGameCRC thaw r = Inr r'"
  then obtain r1 where r1: "Recover_thaw thaw r = Inr r1"
    and r': "r' = (let r2 = emit [Eff_SysClearExecutionCache] (Clear r1)
                   in if hasGSsetGameCRC then emit [Eff_GSsetGameCRC] r2 else r2)"
    by (auto simp: Recover_def Let_def split: if_splits sum.splits)
  show "\<not> HasState r'"
    by (simp add: r' HasState_def Clear_def emit_def Let_def)
  have "occurrences Eff_SysClearExecutionCache r' = occurrences Eff_SysClearExecutionCache r1 + 1"
    by (simp add: r' Clear_def emit_def occurrences_def Let_def)
  with Recover_thaw_keeps [OF r1]
  show "occurrences Eff_SysClearExecutionCache r' = occurrences Eff_SysClearExecutionCache r + 1"
    by simp
next
  assume "g_RecoveryState r = None \<and> g_gsRecoveryState r = None"
  then show "Recover True True hasGSsetGameCRC thaw r =
          Inr (emit (Eff_SysClearExecutionCache #
                      (if hasGSsetGameCRC then [Eff_GSsetGameCRC] else [])) r)"
    by (cases r) (simp add: Recover_def Recover_thaw_def Clear_def emit_def)
next
  fix buf
  assume "g_RecoveryState r = Some buf \<and> thaw (Eff_ThawAll buf) = None"
  then show "\<exists>r'. Recover True True hasGSsetGameCRC thaw r = Inr r'"
    by (simp add: Recover_def Recover_thaw_def perform_def Let_def)
next
  fix plugin gs
  assume "g_RecoveryState r = None \<and> g_gsRecoveryState r = Some (partial_buffer plugin gs)
          \<and> length plugin < 2 ^ 32"
  then have "Recover_thaw thaw_ok r =
     Inr (emit [Eff_ConsoleStatus ''Resuming execution from gsState...'',
                Eff_ThawPlugin ''GS'' plugin, Eff_ThawGs gs] r)"
    using Recover_thaw_partial [of r plugin gs] by simp
  then show "\<exists>r'. Recover True True hasGSsetGameCRC thaw_ok r = Inr r'"
    by (simp add: Recover_def Let_def)
qed

lemma Recover_session_both:
  "Recover True True True thaw_ok session_both =
     Inr (session0\<lparr>journal :=
            [Eff_ConsoleStatus ''Resuming execution from full memory state...'',
             Eff_ThawAll [1, 2, 3], Eff_SysClearExecutionCache, Eff_GSsetGameCRC]\<rparr>)"
  by (simp add: Recover_def Recover_thaw_def perform_def thaw_ok_def emit_def Clear_def
      session_both_def session_gs_def session0_def)

theorem Recover_clears_store_witness:
  "\<not> HasState (session0\<lparr>journal :=
            [Eff_ConsoleStatus ''Resuming execution from full memory state...'',
             Eff_ThawAll [1, 2, 3], Eff_SysClearExecutionCache, Eff_GSsetGameCRC]\<rparr>)
   \<and> Recover True True False thaw_ok session0 = Inr (emit [Eff_SysClearExecutionCache] session0)"
proof
  from Recover_clears_store [of True True True thaw_ok session_both] Recover_session_both
  show "\<not> HasState (session0\<lparr>journal :=
            [Eff_ConsoleStatus ''Resuming execution from full memory state...'',
             Eff_ThawAll [1, 2, 3], Eff_SysClearExecutionCache, Eff_GSsetGameCRC]\<rparr>)"
    by blast
next
  have "g_RecoveryState session0 = None \<and> g_gsRecoveryState session0 = None"
    by (simp add: session0_def)
  with Recover_clears_store [of True True False thaw_ok session0]
  show "Recover True True False thaw_ok session0 = Inr (emit [Eff_SysClearExecutionCache] session0)"
    by simp
qed

end
